theory Spec2Isabelle
  imports Complex_Main "HOL-Library.AList"
begin

section \<open>Shared conventions\<close>

text \<open>
  The repository holds two generations of one design: the self-contained prototype
  \<^verbatim>\<open>ConvNEAT.py\<close> and the modular \<^verbatim>\<open>genome.py\<close>. Both are Python, so integers are
  unbounded (\<^typ>\<open>int\<close>), \<^verbatim>\<open>//\<close> is floor division (\<open>div\<close> on \<^typ>\<open>int\<close>), and every
  exception the modelled code can raise is a value of \<open>error\<close>.

  Randomness is made explicit: a function that draws from \<^verbatim>\<open>random\<close> takes the draw as
  an argument. \<^verbatim>\<open>random.choice(xs)\<close> on a non-empty list returns \<open>xs[k]\<close> for a position
  \<open>k\<close> below \<open>len(xs)\<close>; the model receives an arbitrary natural number \<open>k\<close> and reads
  position \<open>k mod len(xs)\<close>, which covers exactly the positions the library can pick.
\<close>

datatype error = ValueError | ZeroDivisionError | KeyError | RecursionError | TypeError

definition random_choice :: "nat \<Rightarrow> 'a list \<Rightarrow> 'a" where
  "random_choice k xs = xs ! (k mod length xs)"

text \<open>\<^verbatim>\<open>random.choice([-2, -1, 1, 2])\<close>\<close>

definition nudge :: "nat \<Rightarrow> int" where
  "nudge k = random_choice k [-2, -1, 1, 2]"

text \<open>
  \<^verbatim>\<open>x or default\<close> on an optional integer argument: \<^verbatim>\<open>None\<close> and \<open>0\<close> are both falsy.
\<close>

definition py_or :: "int option \<Rightarrow> int \<Rightarrow> int" where
  "py_or x d = (case x of None \<Rightarrow> d | Some v \<Rightarrow> if v = 0 then d else v)"

section \<open>Gene hierarchy (ConvNEAT.py)\<close>

text \<open>
  Field names carry a prefix for their class (\<open>k_\<close> KernelGene, \<open>p_\<close> PoolGene,
  \<open>d_\<close> DenseGene, \<open>n_\<close> Node), because the classes share the names \<^verbatim>\<open>depth\<close>,
  \<^verbatim>\<open>width\<close>, \<^verbatim>\<open>height\<close> and \<^verbatim>\<open>padding\<close>.
\<close>

record KernelGene =
  k_depth :: int
  k_width :: int
  k_height :: int
  k_stride :: int
  k_padding :: int

datatype pooling = Max_pool | Avg_pool

record PoolGene =
  p_pooling :: pooling
  p_width :: int
  p_height :: int
  p_padding :: int

datatype activation = Relu | Tanh

record DenseGene =
  d_size_change :: int
  d_activation :: activation

subsection \<open>KernelGene\<close>

text \<open>
  \<^verbatim>\<open>KernelGene.__init__(id, id_in, id_out, size=[None, None, None], stride=None, padding=None)\<close>.
  \<open>rw\<close> and \<open>rh\<close> are the draws of \<^verbatim>\<open>random.randrange(3, 6)\<close> in \<^verbatim>\<open>init_width\<close> and
  \<^verbatim>\<open>init_height\<close>.
\<close>

definition KernelGene_init_depth :: int where
  "KernelGene_init_depth = 1"

definition KernelGene_init_width :: "nat \<Rightarrow> int" where
  "KernelGene_init_width rw = random_choice rw [3, 4, 5]"

definition KernelGene_init_height :: "nat \<Rightarrow> int" where
  "KernelGene_init_height rh = random_choice rh [3, 4, 5]"

definition KernelGene_init_stride :: int where
  "KernelGene_init_stride = 1"

definition KernelGene_init_padding :: int where
  "KernelGene_init_padding = 0"

definition KernelGene_init ::
  "int option \<Rightarrow> int option \<Rightarrow> int option \<Rightarrow> int option \<Rightarrow> int option \<Rightarrow> nat \<Rightarrow> nat \<Rightarrow> KernelGene" where
  "KernelGene_init depth width height stride padding rw rh =
     \<lparr> k_depth = py_or depth KernelGene_init_depth,
       k_width = py_or width (KernelGene_init_width rw),
       k_height = py_or height (KernelGene_init_height rh),
       k_stride = py_or stride KernelGene_init_stride,
       k_padding = (case padding of None \<Rightarrow> KernelGene_init_padding | Some p \<Rightarrow> p) \<rparr>"

definition KernelGene_mutate_depth :: "nat \<Rightarrow> KernelGene \<Rightarrow> KernelGene" where
  "KernelGene_mutate_depth r g = g\<lparr>k_depth := max 1 (k_depth g + nudge r)\<rparr>"

definition KernelGene_mutate_width :: "nat \<Rightarrow> KernelGene \<Rightarrow> KernelGene" where
  "KernelGene_mutate_width r g = g\<lparr>k_width := max 1 (k_width g + nudge r)\<rparr>"

definition KernelGene_mutate_height :: "nat \<Rightarrow> KernelGene \<Rightarrow> KernelGene" where
  "KernelGene_mutate_height r g = g\<lparr>k_height := max 1 (k_height g + nudge r)\<rparr>"

definition KernelGene_mutate_size :: "nat \<Rightarrow> KernelGene \<Rightarrow> KernelGene" where
  "KernelGene_mutate_size r g =
     g\<lparr>k_width := max 1 (k_width g + nudge r), k_height := max 1 (k_height g + nudge r)\<rparr>"

text \<open>
  The next two are the source's lines 120--124: both bodies assign \<^verbatim>\<open>self.depth\<close>.
\<close>

definition KernelGene_mutate_stride :: "nat \<Rightarrow> KernelGene \<Rightarrow> KernelGene" where
  "KernelGene_mutate_stride r g = g\<lparr>k_depth := max 1 (k_depth g + nudge r)\<rparr>"

definition KernelGene_mutate_padding :: "nat \<Rightarrow> KernelGene \<Rightarrow> KernelGene" where
  "KernelGene_mutate_padding r g = g\<lparr>k_depth := max 1 (k_depth g + nudge r)\<rparr>"

text \<open>
  \<^verbatim>\<open>KernelGene.output_size\<close>. Unpacking \<^verbatim>\<open>[in_depth, in_width, in_height] = in_size\<close>
  raises \<^verbatim>\<open>ValueError\<close> unless \<open>in_size\<close> has three elements; \<^verbatim>\<open>// self.stride\<close> raises
  \<^verbatim>\<open>ZeroDivisionError\<close> for a zero stride.
\<close>

fun KernelGene_output_size :: "KernelGene \<Rightarrow> int list \<Rightarrow> error + int list" where
  "KernelGene_output_size g [in_depth, in_width, in_height] =
     (if k_stride g = 0 then Inl ZeroDivisionError
      else Inr [k_depth g,
                ((in_width - k_width g + 2 * k_padding g - 1) div k_stride g) + 1,
                ((in_height - k_height g + 2 * k_padding g - 1) div k_stride g) + 1])"
| "KernelGene_output_size g in_size = Inl ValueError"

definition KernelGene_copy :: "KernelGene \<Rightarrow> nat \<Rightarrow> nat \<Rightarrow> KernelGene" where
  "KernelGene_copy g rw rh =
     KernelGene_init (Some (k_depth g)) (Some (k_width g)) (Some (k_height g))
       (Some (k_stride g)) (Some (k_padding g)) rw rh"

subsection \<open>PoolGene\<close>

definition PoolGene_init_padding :: int where
  "PoolGene_init_padding = 0"

definition PoolGene_init_width :: "nat \<Rightarrow> int" where
  "PoolGene_init_width rw = random_choice rw [3, 4, 5]"

definition PoolGene_init_height :: "nat \<Rightarrow> int" where
  "PoolGene_init_height rh = random_choice rh [3, 4, 5]"

definition PoolGene_init_pooling :: "nat \<Rightarrow> pooling" where
  "PoolGene_init_pooling rp = random_choice rp [Max_pool, Avg_pool]"

text \<open>
  \<^verbatim>\<open>PoolGene.__init__(id, id_in, id_out, pooling=None, size=[None, None], padding=None)\<close>
\<close>

definition PoolGene_init ::
  "pooling option \<Rightarrow> int option \<Rightarrow> int option \<Rightarrow> int option \<Rightarrow> nat \<Rightarrow> nat \<Rightarrow> nat \<Rightarrow> PoolGene" where
  "PoolGene_init pooling width height padding rp rw rh =
     \<lparr> p_pooling = (case pooling of None \<Rightarrow> PoolGene_init_pooling rp | Some p \<Rightarrow> p),
       p_width = py_or width (PoolGene_init_width rw),
       p_height = py_or height (PoolGene_init_height rh),
       p_padding = (case padding of None \<Rightarrow> PoolGene_init_padding | Some p \<Rightarrow> p) \<rparr>"

definition PoolGene_mutate_padding :: "nat \<Rightarrow> PoolGene \<Rightarrow> PoolGene" where
  "PoolGene_mutate_padding r g = g\<lparr>p_padding := max 1 (p_padding g + nudge r)\<rparr>"

text \<open>Any number of padding mutations in a row, one draw each.\<close>

fun PoolGene_mutate_padding_many :: "nat list \<Rightarrow> PoolGene \<Rightarrow> PoolGene" where
  "PoolGene_mutate_padding_many [] g = g"
| "PoolGene_mutate_padding_many (r # rs) g =
     PoolGene_mutate_padding_many rs (PoolGene_mutate_padding r g)"

section \<open>Population (ConvNEAT.py)\<close>

text \<open>
  \<^verbatim>\<open>itertools.count()\<close> is its next value; \<^verbatim>\<open>next_id\<close> returns it and advances the
  counter. The prototype's \<^verbatim>\<open>Genome.__init__\<close> and \<^verbatim>\<open>init_genome\<close> use the literal ids
  0 to 4 and never call \<^verbatim>\<open>next_id\<close>, so the genomes list is built without touching the
  counter; the model keeps their number only.
\<close>

record Population =
  id_generator :: int
  n_genomes :: nat

definition next_id :: "Population \<Rightarrow> int \<times> Population" where
  "next_id p = (id_generator p, p\<lparr>id_generator := id_generator p + 1\<rparr>)"

text \<open>\<^verbatim>\<open>[f() for f in [self.next_id]*5]\<close>: the list has five entries.\<close>

fun next_id_times :: "nat \<Rightarrow> Population \<Rightarrow> int list \<times> Population" where
  "next_id_times 0 p = ([], p)"
| "next_id_times (Suc k) p =
     (let (i, p') = next_id p; (is, p'') = next_id_times k p' in (i # is, p''))"

definition Population_init :: "nat \<Rightarrow> Population" where
  "Population_init n =
     (let p = \<lparr> id_generator = 0, n_genomes = 0 \<rparr>;
          (reserved, p') = next_id_times 5 p
      in p'\<lparr>n_genomes := n\<rparr>)"

section \<open>Node and Gene objects (ConvNEAT.py)\<close>

text \<open>
  \<^verbatim>\<open>genome.py\<close> imports \<^verbatim>\<open>Node\<close> and the gene classes from modules \<^verbatim>\<open>node\<close> and
  \<^verbatim>\<open>gene\<close>; the classes of these names that the sources hold are those of
  \<^verbatim>\<open>ConvNEAT.py\<close>, and they are the ones used here. A gene object is its header
  (\<^verbatim>\<open>Gene.__init__\<close>: id, id_in, id_out, enabled) together with the fields of its
  subclass. Ids are Python integers; a node's depth is a finite Python float, which
  is a real number.
\<close>

datatype merge = Upscale | Downscale | Padding | Avgscale

datatype role = Input | Flatten | Output

record Node =
  n_id :: int
  n_depth :: real
  n_role :: "role option"
  n_merge :: merge
  n_size :: "int list option"

definition possible_merges :: "merge list" where
  "possible_merges = [Upscale, Downscale, Padding, Avgscale]"

text \<open>\<^verbatim>\<open>Node.__init__(id, depth, merge=None, role=None)\<close>; \<open>rm\<close> is the draw of \<^verbatim>\<open>init_merge\<close>.\<close>

definition Node_init :: "int \<Rightarrow> real \<Rightarrow> merge option \<Rightarrow> role option \<Rightarrow> nat \<Rightarrow> Node" where
  "Node_init i depth merge role rm =
     \<lparr> n_id = i, n_depth = depth, n_role = role,
       n_merge = (case merge of None \<Rightarrow> random_choice rm possible_merges | Some m \<Rightarrow> m),
       n_size = None \<rparr>"

datatype gene_data = Kernel KernelGene | Pool PoolGene | Dense DenseGene

record Gene =
  g_id :: int
  id_in :: int
  id_out :: int
  enabled :: bool
  g_data :: gene_data

datatype gene_class = KernelGene_class | PoolGene_class | DenseGene_class

text \<open>
  The draws one gene construction may consume: the class picked by
  \<^verbatim>\<open>weighted_choice\<close> and up to three draws of the \<^verbatim>\<open>init_*\<close> methods.
\<close>

record draws =
  dr_class :: nat
  dr_a :: nat
  dr_b :: nat
  dr_c :: nat

text \<open>
  \<^verbatim>\<open>weighted_choice(choices, weights)\<close> with integer weights: each choice is as likely
  as its weight, and a choice of weight 0 is never returned.
\<close>

definition weighted_choice :: "'a list \<Rightarrow> nat list \<Rightarrow> nat \<Rightarrow> 'a" where
  "weighted_choice choices weights r =
     random_choice r (concat (map (\<lambda>(c, w). replicate w c) (zip choices weights)))"

definition DenseGene_init_size_change :: "nat \<Rightarrow> int" where
  "DenseGene_init_size_change r = random_choice r ([-10 .. -5] @ [5 .. 10])"

definition DenseGene_init_activation :: "nat \<Rightarrow> activation" where
  "DenseGene_init_activation r = random_choice r [Relu, Tanh]"

text \<open>\<^verbatim>\<open>DenseGene.__init__(id, id_in, id_out, size_change=None, activation=None)\<close>\<close>

definition DenseGene_init :: "int option \<Rightarrow> activation option \<Rightarrow> nat \<Rightarrow> nat \<Rightarrow> DenseGene" where
  "DenseGene_init size_change activation rs ra =
     \<lparr> d_size_change = py_or size_change (DenseGene_init_size_change rs),
       d_activation = (case activation of None \<Rightarrow> DenseGene_init_activation ra | Some a \<Rightarrow> a) \<rparr>"

definition PoolGene_copy :: "PoolGene \<Rightarrow> nat \<Rightarrow> nat \<Rightarrow> nat \<Rightarrow> PoolGene" where
  "PoolGene_copy g rp rw rh =
     PoolGene_init (Some (p_pooling g)) (Some (p_width g)) (Some (p_height g))
       (Some (p_padding g)) rp rw rh"

definition DenseGene_copy :: "DenseGene \<Rightarrow> nat \<Rightarrow> nat \<Rightarrow> DenseGene" where
  "DenseGene_copy g rs ra =
     DenseGene_init (Some (d_size_change g)) (Some (d_activation g)) rs ra"

text \<open>
  \<^verbatim>\<open>cls(id, id_in, id_out)\<close> for one of the three subclasses: the header with
  \<^verbatim>\<open>enabled = True\<close>, every other field from its \<^verbatim>\<open>init_*\<close> method.
\<close>

definition Gene_new :: "gene_class \<Rightarrow> int \<Rightarrow> int \<Rightarrow> int \<Rightarrow> draws \<Rightarrow> Gene" where
  "Gene_new cls i i_in i_out d =
     \<lparr> g_id = i, id_in = i_in, id_out = i_out, enabled = True,
       g_data = (case cls of
           KernelGene_class \<Rightarrow> Kernel (KernelGene_init None None None None None (dr_a d) (dr_b d))
         | PoolGene_class \<Rightarrow> Pool (PoolGene_init None None None None (dr_a d) (dr_b d) (dr_c d))
         | DenseGene_class \<Rightarrow> Dense (DenseGene_init None None (dr_a d) (dr_b d))) \<rparr>"

text \<open>\<^verbatim>\<open>init_mutate_to\<close> of the three subclasses.\<close>

fun init_mutate_to :: "gene_data \<Rightarrow> gene_class list \<times> nat list" where
  "init_mutate_to (Kernel k) = ([KernelGene_class, PoolGene_class, DenseGene_class], [1, 2, 0])"
| "init_mutate_to (Pool p) = ([KernelGene_class, PoolGene_class, DenseGene_class], [4, 1, 0])"
| "init_mutate_to (Dense d) = ([KernelGene_class, PoolGene_class, DenseGene_class], [0, 0, 1])"

text \<open>\<^verbatim>\<open>Gene.add_after(id, id_in, id_out)\<close>\<close>

definition Gene_add_after :: "Gene \<Rightarrow> int \<Rightarrow> int \<Rightarrow> int \<Rightarrow> draws \<Rightarrow> Gene" where
  "Gene_add_after e i i_in i_out d =
     (let (choices, weights) = init_mutate_to (g_data e)
      in Gene_new (weighted_choice choices weights (dr_class d)) i i_in i_out d)"

text \<open>\<^verbatim>\<open>copy(id, id_in, id_out)\<close> of the three subclasses.\<close>

definition Gene_copy :: "Gene \<Rightarrow> int \<Rightarrow> int \<Rightarrow> int \<Rightarrow> draws \<Rightarrow> Gene" where
  "Gene_copy e i i_in i_out d =
     \<lparr> g_id = i, id_in = i_in, id_out = i_out, enabled = True,
       g_data = (case g_data e of
           Kernel k \<Rightarrow> Kernel (KernelGene_copy k (dr_a d) (dr_b d))
         | Pool p \<Rightarrow> Pool (PoolGene_copy p (dr_a d) (dr_b d) (dr_c d))
         | Dense s \<Rightarrow> Dense (DenseGene_copy s (dr_a d) (dr_b d))) \<rparr>"

section \<open>Genome (genome.py)\<close>

text \<open>
  A Python dictionary is an association list with one entry per key, in insertion
  order; \<open>d[k] = v\<close> is \<^const>\<open>AList.update\<close>. The lists \<^verbatim>\<open>nodes\<close> and \<^verbatim>\<open>genes\<close> hold
  the objects; \<^verbatim>\<open>nodes_by_id\<close> and \<^verbatim>\<open>genes_by_id\<close> hold references to the same
  objects, modelled as positions in the two lists, so that \<^verbatim>\<open>edge.enabled = False\<close>
  is seen through both. The optimizer (module \<^verbatim>\<open>optimizer\<close>) and the network
  parameters are opaque: types \<open>'o\<close> and \<open>'p\<close>. The population is passed in and out
  wherever \<^verbatim>\<open>self.population.next_id()\<close> is called.
\<close>

type_synonym ('k, 'v) dict = "('k \<times> 'v) list"

datatype pyfloat = Finite real | Infinity

record ('o, 'p) Genome =
  optimizer :: 'o
  nodes :: "Node list"
  genes :: "Gene list"
  genes_by_id :: "(int, nat) dict"
  nodes_by_id :: "(int, nat) dict"
  net_parameters :: "'p option"
  acc :: "real option"
  loss :: pyfloat
  trained :: int
  no_change :: int
  reward :: int

text \<open>
  \<^verbatim>\<open>dicts_by_id\<close>: one pass over each list, a later object replacing an earlier one of
  the same id.
\<close>

fun dict_by_id :: "('a \<Rightarrow> int) \<Rightarrow> 'a list \<Rightarrow> nat \<Rightarrow> (int, nat) dict \<Rightarrow> (int, nat) dict" where
  "dict_by_id key [] pos d = d"
| "dict_by_id key (x # xs) pos d = dict_by_id key xs (Suc pos) (AList.update (key x) pos d)"

definition dicts_by_id :: "Gene list \<Rightarrow> Node list \<Rightarrow> (int, nat) dict \<times> (int, nat) dict" where
  "dicts_by_id gs ns = (dict_by_id g_id gs 0 [], dict_by_id n_id ns 0 [])"

text \<open>\<^verbatim>\<open>self.nodes_by_id[k]\<close>: the node the key refers to, or \<^verbatim>\<open>KeyError\<close>.\<close>

definition node_by_id :: "('o, 'p) Genome \<Rightarrow> int \<Rightarrow> error + Node" where
  "node_by_id g k =
     (case map_of (nodes_by_id g) k of
        None \<Rightarrow> Inl KeyError
      | Some pos \<Rightarrow> if pos < length (nodes g) then Inr (nodes g ! pos) else Inl KeyError)"

text \<open>
  \<^verbatim>\<open>init_genome\<close>: \<^verbatim>\<open>Gene(3, 0, 1, mutate_to=[[KernelGene, DenseGene], [1, 0]]).mutate_random()\<close>
  is \<^verbatim>\<open>KernelGene(3, 0, 1)\<close>, and the second gene is \<^verbatim>\<open>DenseGene(4, 1, 2)\<close>.
\<close>

definition init_genome :: "nat \<Rightarrow> nat \<Rightarrow> nat \<Rightarrow> draws \<Rightarrow> draws \<Rightarrow> Node list \<times> Gene list" where
  "init_genome m0 m1 m2 d3 d4 =
     ([Node_init 0 0 None (Some Input) m0, Node_init 1 1 None (Some Flatten) m1,
       Node_init 2 2 None (Some Output) m2],
      [Gene_new (weighted_choice [KernelGene_class, DenseGene_class] [1, 0] (dr_class d3)) 3 0 1 d3,
       Gene_new (weighted_choice [KernelGene_class, DenseGene_class] [0, 1] (dr_class d4)) 4 1 2 d4])"

text \<open>
  \<^verbatim>\<open>Genome.__init__\<close>. \<open>fresh_optimizer\<close> is the value of \<^verbatim>\<open>self.init_optimizer()\<close> and
  \<open>fresh\<close> the value of \<^verbatim>\<open>self.init_genome()\<close>; the arguments after them are the
  keyword arguments, whose defaults are those of \<open>Genome_default\<close>.
\<close>

definition Genome_init ::
  "'o \<Rightarrow> Node list \<times> Gene list \<Rightarrow> 'o option \<Rightarrow> (Node list \<times> Gene list) option \<Rightarrow>
   Node list option \<Rightarrow> Gene list option \<Rightarrow> int \<Rightarrow> int \<Rightarrow> real option \<Rightarrow> 'p option \<Rightarrow>
   pyfloat \<Rightarrow> int \<Rightarrow> ('o, 'p) Genome" where
  "Genome_init fresh_optimizer fresh optimizer' nodes_and_genes nodes' genes' trained' reward'
      acc' net_parameters' loss' no_change' =
     (let opt = (case optimizer' of None \<Rightarrow> fresh_optimizer | Some x \<Rightarrow> x);
          (ns, gs) = (case (nodes', genes') of
                        (Some n, Some g) \<Rightarrow> (n, g)
                      | _ \<Rightarrow> (case nodes_and_genes of None \<Rightarrow> fresh | Some ng \<Rightarrow> ng));
          (gd, nd) = dicts_by_id gs ns
      in \<lparr> optimizer = opt, nodes = ns, genes = gs, genes_by_id = gd, nodes_by_id = nd,
           net_parameters = net_parameters', acc = acc', loss = loss', trained = trained',
           no_change = no_change', reward = reward' \<rparr>)"

definition Genome_default :: "'o \<Rightarrow> Node list \<times> Gene list \<Rightarrow> ('o, 'p) Genome" where
  "Genome_default fresh_optimizer fresh =
     Genome_init fresh_optimizer fresh None None None None 0 0 None None Infinity 0"

subsection \<open>Reachability and disabling an edge\<close>

text \<open>
  \<^verbatim>\<open>dfs(id_s, id_t)\<close> recurses once per node on the path it follows; Python bounds
  the depth of recursion, and \<open>fuel\<close> is the number of nested calls still allowed.
  \<open>None\<close> is \<^verbatim>\<open>RecursionError\<close>. \<open>dfs_for\<close> is the \<^verbatim>\<open>for p in neig\<close> loop over the
  results of the recursive calls: it stops at the first call that raises or
  returns \<^verbatim>\<open>True\<close>.
\<close>

fun dfs_for :: "bool option list \<Rightarrow> bool option" where
  "dfs_for [] = Some False"
| "dfs_for (None # rs) = None"
| "dfs_for (Some True # rs) = Some True"
| "dfs_for (Some False # rs) = dfs_for rs"

fun dfs :: "nat \<Rightarrow> ('o, 'p) Genome \<Rightarrow> int \<Rightarrow> int \<Rightarrow> bool option" where
  "dfs 0 g id_s id_t = None"
| "dfs (Suc fuel) g id_s id_t =
     (if id_s = id_t then Some True
      else let neig = map id_out (filter (\<lambda>gene. id_in gene = id_s \<and> enabled gene) (genes g))
           in if length neig = 0 then Some False
              else dfs_for (map (\<lambda>p. dfs fuel g p id_t) neig))"

text \<open>\<^verbatim>\<open>gene.enabled = b\<close> for the gene object at position \<open>j\<close> of \<^verbatim>\<open>self.genes\<close>.\<close>

definition set_enabled :: "nat \<Rightarrow> bool \<Rightarrow> ('o, 'p) Genome \<Rightarrow> ('o, 'p) Genome" where
  "set_enabled j b g = g\<lparr>genes := (genes g)[j := (genes g ! j)\<lparr>enabled := b\<rparr>]\<rparr>"

text \<open>\<^verbatim>\<open>[gene for gene in self.genes if gene.enabled]\<close>, as positions in \<^verbatim>\<open>self.genes\<close>.\<close>

definition enabled_edges :: "('o, 'p) Genome \<Rightarrow> nat list" where
  "enabled_edges g = filter (\<lambda>j. enabled (genes g ! j)) [0 ..< length (genes g)]"

definition disable_edge :: "nat \<Rightarrow> ('o, 'p) Genome \<Rightarrow> nat \<Rightarrow> error + (('o, 'p) Genome \<times> bool)" where
  "disable_edge fuel g j =
     (let g1 = set_enabled j False g
      in case dfs fuel g1 0 2 of
           None \<Rightarrow> Inl RecursionError
         | Some False \<Rightarrow> Inr (set_enabled j True g1, False)
         | Some True \<Rightarrow> Inr (g1, True))"

text \<open>
  The \<^verbatim>\<open>while tries > 0\<close> loop of \<^verbatim>\<open>mutate_disable_edge\<close>; \<open>rnd k\<close> is the draw of the
  \<open>k\<close>-th \<^verbatim>\<open>random.choice(enabled_edges)\<close>.
\<close>

fun mutate_disable_edge_loop ::
  "nat \<Rightarrow> ('o, 'p) Genome \<Rightarrow> nat list \<Rightarrow> nat \<Rightarrow> (nat \<Rightarrow> nat) \<Rightarrow> error + ('o, 'p) Genome" where
  "mutate_disable_edge_loop fuel g edges 0 rnd = Inr g"
| "mutate_disable_edge_loop fuel g edges (Suc tries) rnd =
     (case disable_edge fuel g (random_choice (rnd 0) edges) of
        Inl e \<Rightarrow> Inl e
      | Inr (g', True) \<Rightarrow> Inr g'
      | Inr (g', False) \<Rightarrow> mutate_disable_edge_loop fuel g' edges tries (\<lambda>k. rnd (Suc k)))"

definition mutate_disable_edge ::
  "nat \<Rightarrow> ('o, 'p) Genome \<Rightarrow> nat \<Rightarrow> (nat \<Rightarrow> nat) \<Rightarrow> error + ('o, 'p) Genome" where
  "mutate_disable_edge fuel g tries rnd =
     (let edges = enabled_edges g
      in if length edges > 0 then mutate_disable_edge_loop fuel g edges tries rnd else Inr g)"

text \<open>
  Reachability through enabled edges, stated without the search: the reflexive
  transitive closure of the enabled genes' (id_in, id_out) pairs.
\<close>

definition enabled_pairs :: "('o, 'p) Genome \<Rightarrow> (int \<times> int) set" where
  "enabled_pairs g = set (map (\<lambda>e. (id_in e, id_out e)) (filter enabled (genes g)))"

definition reachable :: "('o, 'p) Genome \<Rightarrow> int \<Rightarrow> int \<Rightarrow> bool" where
  "reachable g s t = ((s, t) \<in> (enabled_pairs g)\<^sup>*)"

text \<open>
  The depth a node id stands for (\<^verbatim>\<open>self.nodes_by_id[k].depth\<close>), and the feed-forward
  ordering of a genome: every gene leads from a node to a strictly deeper one.
\<close>

definition depth_of :: "('o, 'p) Genome \<Rightarrow> int \<Rightarrow> real option" where
  "depth_of g k = (case node_by_id g k of Inl e \<Rightarrow> None | Inr n \<Rightarrow> Some (n_depth n))"

definition forward_gene :: "('o, 'p) Genome \<Rightarrow> Gene \<Rightarrow> bool" where
  "forward_gene g e =
     (case (depth_of g (id_in e), depth_of g (id_out e)) of
        (Some d1, Some d2) \<Rightarrow> d1 < d2
      | _ \<Rightarrow> False)"

definition feed_forward :: "('o, 'p) Genome \<Rightarrow> bool" where
  "feed_forward g = list_all (forward_gene g) (genes g)"

subsection \<open>Floating-point arithmetic on depths\<close>

text \<open>
  A finite Python float is a real number, and so is a node's depth; comparisons of
  floats are exact, but every arithmetic operation returns the exact result rounded
  to the float format. \<open>round_double\<close> is the rounding of CPython's floats (IEEE 754
  binary64, round to nearest, ties to even) for results of finite magnitude: a
  value of magnitude in \<open>[2^e, 2^(e+1))\<close> is rounded to a multiple of \<open>2^(e-52)\<close>, and
  below \<open>2^-1022\<close> to a multiple of \<open>2^-1074\<close>. \<open>binade n x\<close> finds \<open>e\<close> for a positive
  \<open>x\<close> in at most \<open>n\<close> halvings or doublings, which is enough for every \<open>x\<close> between
  \<open>2^-1022\<close> and the largest float when \<open>n\<close> is 1100. Overflow to infinity is outside
  the real numbers and is not represented.
\<close>

definition round_half_even :: "real \<Rightarrow> int" where
  "round_half_even y =
     (let f = \<lfloor>y\<rfloor>
      in if y - of_int f < 1 / 2 then f
         else if 1 / 2 < y - of_int f then f + 1
         else if even f then f else f + 1)"

definition pow2 :: "int \<Rightarrow> real" where
  "pow2 e = (if 0 \<le> e then 2 ^ nat e else 1 / 2 ^ nat (- e))"

fun binade :: "nat \<Rightarrow> real \<Rightarrow> int" where
  "binade 0 x = 0"
| "binade (Suc n) x =
     (if 2 \<le> x then binade n (x / 2) + 1
      else if x < 1 then binade n (2 * x) - 1
      else 0)"

definition round_double :: "real \<Rightarrow> real" where
  "round_double x =
     (if x = 0 then 0
      else let e = max (binade 1100 \<bar>x\<bar>) (- 1022);
               q = pow2 (e - 52)
           in sgn x * of_int (round_half_even (\<bar>x\<bar> / q)) * q)"

subsection \<open>Splitting an edge\<close>

text \<open>
  \<^verbatim>\<open>split_edge(this_gen_mutations)\<close>. The cache maps an edge id to
  \<^verbatim>\<open>[id1, id2, id3, depth]\<close>. Draws: \<open>r_edge\<close> for \<^verbatim>\<open>random.choice(enabled_edges)\<close>,
  \<open>r_normal\<close> for the value of \<^verbatim>\<open>random.normalvariate((d1 + d2) / 2, 0.01)\<close>, \<open>r_merge\<close>
  for the new node's merge, \<open>d_copy\<close> and \<open>d_after\<close> for the two new genes.

  \<open>fl\<close> is the rounding of the float format; \<open>split_depth\<close> is line 162,
  \<^verbatim>\<open>min(d2-(d2-d1)/10, max(d1+(d2-d1)/10, r))\<close>, with each of its six arithmetic
  results rounded. Nothing is assumed of \<open>fl\<close>; for CPython it is \<open>round_double\<close>.
\<close>

type_synonym innovation = "int \<times> int \<times> int \<times> real"

definition split_depth :: "(real \<Rightarrow> real) \<Rightarrow> real \<Rightarrow> real \<Rightarrow> real \<Rightarrow> real" where
  "split_depth fl d1 d2 r_normal =
     min (fl (d2 - fl (fl (d2 - d1) / 10))) (max (fl (d1 + fl (fl (d2 - d1) / 10))) r_normal)"

definition split_innovation ::
  "(real \<Rightarrow> real) \<Rightarrow> (int, innovation) dict \<Rightarrow> Population \<Rightarrow> int \<Rightarrow> real \<Rightarrow> real \<Rightarrow> real \<Rightarrow>
   innovation \<times> (int, innovation) dict \<times> Population" where
  "split_innovation fl this_gen_mutations pop edge_id d1 d2 r_normal =
     (case map_of this_gen_mutations edge_id of
        None \<Rightarrow>
          (let depth = split_depth fl d1 d2 r_normal;
               (id1, pop1) = next_id pop;
               (id2, pop2) = next_id pop1;
               (id3, pop3) = next_id pop2;
               entry = (id1, id2, id3, depth)
           in (entry, AList.update edge_id entry this_gen_mutations, pop3))
      | Some entry \<Rightarrow> (entry, this_gen_mutations, pop))"

definition split_edge ::
  "(real \<Rightarrow> real) \<Rightarrow> ('o, 'p) Genome \<Rightarrow> (int, innovation) dict \<Rightarrow> Population \<Rightarrow>
   nat \<Rightarrow> real \<Rightarrow> nat \<Rightarrow> draws \<Rightarrow> draws \<Rightarrow>
   error + (('o, 'p) Genome \<times> (int, innovation) dict \<times> Population)" where
  "split_edge fl g this_gen_mutations pop r_edge r_normal r_merge d_copy d_after =
     (let edges = enabled_edges g
      in if length edges > 0 then
           (let j = random_choice r_edge edges;
                edge = genes g ! j
            in case node_by_id g (id_in edge) of
                 Inl err \<Rightarrow> Inl err
               | Inr node_in \<Rightarrow>
                  (case node_by_id g (id_out edge) of
                     Inl err \<Rightarrow> Inl err
                   | Inr node_out \<Rightarrow>
                      (let d1 = n_depth node_in;
                           d2 = n_depth node_out;
                           ((id1, id2, id3, depth), cache', pop') =
                              split_innovation fl this_gen_mutations pop (g_id edge) d1 d2 r_normal;
                           new_node = Node_init id1 depth None None r_merge;
                           new_edge_1 = Gene_copy edge id2 (id_in edge) (n_id new_node) d_copy;
                           new_edge_2 = Gene_add_after edge id3 (n_id new_node) (id_out edge) d_after;
                           g1 = set_enabled j False g;
                           g2 = g1\<lparr>nodes := nodes g1 @ [new_node]\<rparr>;
                           g3 = g2\<lparr>genes := genes g2 @ [new_edge_1, new_edge_2]\<rparr>;
                           g4 = g3\<lparr>nodes_by_id := AList.update id1 (length (nodes g)) (nodes_by_id g3)\<rparr>;
                           g5 = g4\<lparr>genes_by_id := AList.update id2 (length (genes g)) (genes_by_id g4)\<rparr>;
                           g6 = g5\<lparr>genes_by_id := AList.update id3 (Suc (length (genes g))) (genes_by_id g5)\<rparr>
                       in Inr (g6, cache', pop'))))
         else Inr (g, this_gen_mutations, pop))"

subsection \<open>Adding an edge\<close>

text \<open>
  \<^verbatim>\<open>random.sample(self.nodes, 2)\<close> returns two objects at two different positions
  of the list, in either order; from two draws \<open>a\<close> and \<open>b\<close> the model takes the
  position \<open>a mod n\<close> and one of the \<open>n - 1\<close> other positions.
\<close>

definition random_sample2 :: "nat \<Rightarrow> nat \<Rightarrow> nat \<Rightarrow> nat \<times> nat" where
  "random_sample2 a b n = (a mod n, (a mod n + 1 + b mod (n - 1)) mod n)"

record edge_draws =
  ed_a :: nat
  ed_b :: nat
  ed_gene :: draws

definition gene_pairs :: "('o, 'p) Genome \<Rightarrow> (int \<times> int) list" where
  "gene_pairs g = map (\<lambda>e. (id_in e, id_out e)) (genes g)"

text \<open>The \<^verbatim>\<open>while tries > 0\<close> loop of \<^verbatim>\<open>add_edge\<close>; \<open>rnd k\<close> holds the draws of the \<open>k\<close>-th attempt.\<close>

fun add_edge_loop ::
  "nat \<Rightarrow> ('o, 'p) Genome \<Rightarrow> Population \<Rightarrow> (nat \<Rightarrow> edge_draws) \<Rightarrow> ('o, 'p) Genome \<times> Population" where
  "add_edge_loop 0 g pop rnd = (g, pop)"
| "add_edge_loop (Suc tries) g pop rnd =
     (let d = rnd 0;
          (i, j) = random_sample2 (ed_a d) (ed_b d) (length (nodes g));
          (s1, s2) = (nodes g ! i, nodes g ! j);
          (n1, n2) = (if n_depth s1 > n_depth s2 then (s2, s1) else (s1, s2))
      in if n_depth n1 = n_depth n2 \<or> (n_id n1, n_id n2) \<in> set (gene_pairs g)
         then add_edge_loop tries g pop (\<lambda>k. rnd (Suc k))
         else (let (new_id, pop') = next_id pop;
                   new_edge = Gene_new
                     (weighted_choice [KernelGene_class, PoolGene_class, DenseGene_class] [1, 1, 1]
                        (dr_class (ed_gene d)))
                     new_id (n_id n1) (n_id n2) (ed_gene d);
                   g1 = g\<lparr>genes := genes g @ [new_edge]\<rparr>;
                   g2 = g1\<lparr>genes_by_id := AList.update new_id (length (genes g)) (genes_by_id g1)\<rparr>
               in (g2, pop')))"

definition add_edge ::
  "('o, 'p) Genome \<Rightarrow> Population \<Rightarrow> (nat \<Rightarrow> edge_draws) \<Rightarrow> ('o, 'p) Genome \<times> Population" where
  "add_edge g pop rnd = (if length (nodes g) \<ge> 2 then add_edge_loop 5 g pop rnd else (g, pop))"

text \<open>Repeated calls of \<^verbatim>\<open>add_edge\<close>, each with its own draws.\<close>

fun add_edge_many ::
  "(nat \<Rightarrow> edge_draws) list \<Rightarrow> ('o, 'p) Genome \<Rightarrow> Population \<Rightarrow> ('o, 'p) Genome \<times> Population" where
  "add_edge_many [] g pop = (g, pop)"
| "add_edge_many (rnd # rnds) g pop =
     (let (g', pop') = add_edge g pop rnd in add_edge_many rnds g' pop')"

subsection \<open>Measures and example genomes used in the proofs\<close>

text \<open>
  \<open>dfs_rank g s\<close> counts the genes that end strictly deeper than node \<open>s\<close>; it
  bounds the number of nested \<^verbatim>\<open>dfs\<close> calls from \<open>s\<close> in a feed-forward genome.
\<close>

definition deeper :: "('o, 'p) Genome \<Rightarrow> int \<Rightarrow> int \<Rightarrow> bool" where
  "deeper g a b =
     (case (depth_of g a, depth_of g b) of (Some x, Some y) \<Rightarrow> x < y | _ \<Rightarrow> False)"

definition dfs_rank :: "('o, 'p) Genome \<Rightarrow> int \<Rightarrow> nat" where
  "dfs_rank g s = length (filter (\<lambda>e. deeper g s (id_out e)) (genes g))"

text \<open>
  A genome over the three initial nodes with a given gene list, built by the
  constructor; \<open>triangle\<close> has the edges 0-1, 1-2 and 0-2.
\<close>

definition example_gene :: "int \<Rightarrow> int \<Rightarrow> int \<Rightarrow> bool \<Rightarrow> Gene" where
  "example_gene i a b en =
     \<lparr> g_id = i, id_in = a, id_out = b, enabled = en,
       g_data = Dense \<lparr>d_size_change = 5, d_activation = Relu\<rparr> \<rparr>"

definition example_node :: "int \<Rightarrow> real \<Rightarrow> Node" where
  "example_node i d =
     \<lparr> n_id = i, n_depth = d, n_role = None, n_merge = Upscale, n_size = None \<rparr>"

definition example_genome :: "Gene list \<Rightarrow> (unit, unit) Genome" where
  "example_genome gs =
     Genome_init () ([], []) None None
       (Some [example_node 0 0, example_node 1 1, example_node 2 2]) (Some gs)
       0 0 None None Infinity 0"

definition triangle :: "(unit, unit) Genome" where
  "triangle = example_genome [example_gene 3 0 1 True, example_gene 4 1 2 True, example_gene 5 0 2 True]"

text \<open>Further example data: the minimal genome's two edges, fixed draws, a population.\<close>

definition chain :: "(unit, unit) Genome" where
  "chain = example_genome [example_gene 3 0 1 True, example_gene 4 1 2 True]"

definition no_draws :: draws where
  "no_draws = \<lparr> dr_class = 0, dr_a = 0, dr_b = 0, dr_c = 0 \<rparr>"

definition population_at :: "int \<Rightarrow> Population" where
  "population_at i = \<lparr> id_generator = i, n_genomes = 1 \<rparr>"

definition chain_split :: "(unit, unit) Genome" where
  "chain_split =
     fst (projr (split_edge round_double chain [] (population_at 5) 0 (1/2) 0 no_draws no_draws))"

text \<open>
  A genome in which node 5 lies one float above node 1: depths 1.0 and
  \<open>1 + 2^-52\<close>, joined by the enabled edge 6. It has the shape of \<open>chain\<close> after a
  split of edge 4, and the depth that repeated splits of the edges leaving node 1
  approach.
\<close>

definition tight_genome :: "(unit, unit) Genome" where
  "tight_genome =
     Genome_init () ([], []) None None
       (Some [example_node 0 0, example_node 1 1, example_node 2 2,
              example_node 5 (1 + 1 / 2 ^ 52)])
       (Some [example_gene 3 0 1 True, example_gene 4 1 2 False,
              example_gene 6 1 5 True, example_gene 7 5 2 True])
       0 0 None None Infinity 0"

text \<open>
  \<open>depths_consistent\<close>: every node object has the depth that its id stands for in
  \<^verbatim>\<open>nodes_by_id\<close>. \<open>added_edge_ok g e\<close>: the gene \<open>e\<close> leads from one node of the
  genome to a strictly deeper one, and no gene of the genome has its (id_in, id_out)
  pair.
\<close>

definition depths_consistent :: "('o, 'p) Genome \<Rightarrow> bool" where
  "depths_consistent g = list_all (\<lambda>n. depth_of g (n_id n) = Some (n_depth n)) (nodes g)"

definition added_edge_ok :: "('o, 'p) Genome \<Rightarrow> Gene \<Rightarrow> bool" where
  "added_edge_ok g e =
     (\<exists>n1 \<in> set (nodes g). \<exists>n2 \<in> set (nodes g).
        id_in e = n_id n1 \<and> id_out e = n_id n2 \<and> n_depth n1 < n_depth n2
        \<and> (id_in e, id_out e) \<notin> set (gene_pairs g))"

text \<open>Draws for \<^verbatim>\<open>add_edge\<close> that sample the first and the last node of a three-node list.\<close>

definition example_edge_draws :: "nat \<Rightarrow> edge_draws" where
  "example_edge_draws k = \<lparr> ed_a = 0, ed_b = 1, ed_gene = no_draws \<rparr>"

definition chain_plus :: "(unit, unit) Genome" where
  "chain_plus = fst (add_edge chain (population_at 5) example_edge_draws)"

subsection \<open>Dissimilarity\<close>

text \<open>
  \<^verbatim>\<open>Genome.dissimilarity(other, c)\<close>. The per-gene, per-node and optimizer
  dissimilarities and \<^verbatim>\<open>limited_growth\<close> are in modules that are not among the
  sources (\<^verbatim>\<open>gene\<close>, \<^verbatim>\<open>node\<close>, \<^verbatim>\<open>optimizer\<close>, \<^verbatim>\<open>tools\<close>); they are the four
  functions of \<open>metrics\<close>. The result and every term are real numbers.
  \<^verbatim>\<open>max\<close> of an empty set raises \<^verbatim>\<open>ValueError\<close>, and the mean over no common node
  divides by zero.
\<close>

record 'o metrics =
  gene_dissimilarity :: "Gene \<Rightarrow> Gene \<Rightarrow> real"
  node_dissimilarity :: "Node \<Rightarrow> Node \<Rightarrow> real"
  optimizer_dissimilarity :: "'o \<Rightarrow> 'o \<Rightarrow> real"
  limited_growth :: "real \<Rightarrow> real \<Rightarrow> real \<Rightarrow> real"

definition gene_by_id :: "('o, 'p) Genome \<Rightarrow> int \<Rightarrow> error + Gene" where
  "gene_by_id g k =
     (case map_of (genes_by_id g) k of
        None \<Rightarrow> Inl KeyError
      | Some pos \<Rightarrow> if pos < length (genes g) then Inr (genes g ! pos) else Inl KeyError)"

definition gene_ids :: "('o, 'p) Genome \<Rightarrow> int set" where
  "gene_ids g = set (map fst (genes_by_id g))"

definition node_ids :: "('o, 'p) Genome \<Rightarrow> int set" where
  "node_ids g = set (map fst (nodes_by_id g))"

text \<open>\<^verbatim>\<open>ids_1 ^ ids_2\<close>\<close>

definition sym_diff :: "int set \<Rightarrow> int set \<Rightarrow> int set" where
  "sym_diff A B = (A - B) \<union> (B - A)"

definition dissimilarity_N :: real where
  "dissimilarity_N = 1"

definition excess_start :: "('o, 'p) Genome \<Rightarrow> ('o, 'p) Genome \<Rightarrow> int" where
  "excess_start g1 g2 = Max (gene_ids g1 \<union> gene_ids g2) + 1"

definition dissimilarity_S :: "'o metrics \<Rightarrow> ('o, 'p) Genome \<Rightarrow> ('o, 'p) Genome \<Rightarrow> real" where
  "dissimilarity_S m g1 g2 =
     (\<Sum>k \<in> gene_ids g1 \<inter> gene_ids g2.
        case (gene_by_id g1 k, gene_by_id g2 k) of
          (Inr a, Inr b) \<Rightarrow> gene_dissimilarity m a b
        | _ \<Rightarrow> 0)"

definition dissimilarity_D :: "('o, 'p) Genome \<Rightarrow> ('o, 'p) Genome \<Rightarrow> int" where
  "dissimilarity_D g1 g2 =
     int (card (Set.filter (\<lambda>k. k < excess_start g1 g2) (sym_diff (gene_ids g1) (gene_ids g2))))"

definition dissimilarity_E :: "('o, 'p) Genome \<Rightarrow> ('o, 'p) Genome \<Rightarrow> int" where
  "dissimilarity_E g1 g2 =
     int (card (sym_diff (gene_ids g1) (gene_ids g2))) - dissimilarity_D g1 g2"

definition dissimilarity_T :: "'o metrics \<Rightarrow> ('o, 'p) Genome \<Rightarrow> ('o, 'p) Genome \<Rightarrow> real" where
  "dissimilarity_T m g1 g2 = optimizer_dissimilarity m (optimizer g1) (optimizer g2)"

definition dissimilarity_K :: "'o metrics \<Rightarrow> ('o, 'p) Genome \<Rightarrow> ('o, 'p) Genome \<Rightarrow> real" where
  "dissimilarity_K m g1 g2 =
     (\<Sum>k \<in> node_ids g1 \<inter> node_ids g2.
        case (node_by_id g1 k, node_by_id g2 k) of
          (Inr a, Inr b) \<Rightarrow> node_dissimilarity m a b
        | _ \<Rightarrow> 0)
     / real (card (node_ids g1 \<inter> node_ids g2))"

definition dissimilarity_X :: "'o metrics \<Rightarrow> ('o, 'p) Genome \<Rightarrow> ('o, 'p) Genome \<Rightarrow> real" where
  "dissimilarity_X m g1 g2 = limited_growth m (real_of_int \<bar>trained g1 - trained g2\<bar>) 1 10"

definition dissimilarity ::
  "'o metrics \<Rightarrow> ('o, 'p) Genome \<Rightarrow> ('o, 'p) Genome \<Rightarrow>
   real \<times> real \<times> real \<times> real \<times> real \<times> real \<Rightarrow> error + real" where
  "dissimilarity m g1 g2 c =
     (let (c0, c1, c2, c3, c4, c5) = c
      in if gene_ids g1 \<union> gene_ids g2 = {} then Inl ValueError
         else if node_ids g1 \<inter> node_ids g2 = {} then Inl ZeroDivisionError
         else Inr ((c0 * dissimilarity_S m g1 g2 + c1 * real_of_int (dissimilarity_D g1 g2)
                      + c2 * real_of_int (dissimilarity_E g1 g2)) / dissimilarity_N
                   + c3 * dissimilarity_T m g1 g2 + c4 * dissimilarity_K m g1 g2
                   + c5 * dissimilarity_X m g1 g2))"

definition example_metrics :: "unit metrics" where
  "example_metrics =
     \<lparr> gene_dissimilarity = (\<lambda>a b. if a = b then 0 else 1),
       node_dissimilarity = (\<lambda>a b. if a = b then 0 else 1),
       optimizer_dissimilarity = (\<lambda>a b. 0),
       limited_growth = (\<lambda>x a b. min x b) \<rparr>"

subsection \<open>Loading a saved genome\<close>

text \<open>
  \<^verbatim>\<open>Genome.load(save, load_params=True)\<close>. \<^verbatim>\<open>save\<close> is a Python list of any length whose
  entries are of different kinds, so an entry is a value of \<open>item\<close>. The saved
  optimizer \<^verbatim>\<open>(class, state)\<close>, a saved node \<^verbatim>\<open>(class, id, depth, state)\<close> and a saved
  gene \<^verbatim>\<open>(class, id, id_in, id_out, state)\<close> are opaque (\<open>'so\<close>, \<open>'sn\<close>, \<open>'sg\<close>): the
  classes' \<^verbatim>\<open>load\<close> methods are in modules that are not among the sources, and
  \<^verbatim>\<open>saved_optimizer[0]().load(saved_optimizer[1])\<close>,
  \<^verbatim>\<open>node[0](node[1], node[2]).load(node[3])\<close> and
  \<^verbatim>\<open>g[0](g[1], g[2], g[3]).load(g[4])\<close> are the three functions of \<open>loaders\<close>.
  The genome's fields are typed here, so an entry of the wrong kind for its
  position is \<^verbatim>\<open>TypeError\<close>; an unpacking of the wrong length is Python's
  \<^verbatim>\<open>ValueError\<close>.
\<close>

datatype ('so, 'sn, 'sg, 'p) item =
    Saved_optimizer 'so
  | Saved_nodes "'sn list"
  | Saved_genes "'sg list"
  | Saved_acc "real option"
  | Saved_loss pyfloat
  | Saved_int int
  | Saved_parameters "'p option"

record ('so, 'sn, 'sg, 'o) loaders =
  load_optimizer :: "'so \<Rightarrow> 'o"
  load_node :: "'sn \<Rightarrow> Node"
  load_gene :: "'sg \<Rightarrow> Gene"

definition and_then :: "error + 'a \<Rightarrow> ('a \<Rightarrow> error + 'b) \<Rightarrow> error + 'b" where
  "and_then r f = (case r of Inl e \<Rightarrow> Inl e | Inr x \<Rightarrow> f x)"

fun item_optimizer :: "('so, 'sn, 'sg, 'p) item \<Rightarrow> error + 'so" where
  "item_optimizer (Saved_optimizer s) = Inr s"
| "item_optimizer x = Inl TypeError"

fun item_nodes :: "('so, 'sn, 'sg, 'p) item \<Rightarrow> error + 'sn list" where
  "item_nodes (Saved_nodes s) = Inr s"
| "item_nodes x = Inl TypeError"

fun item_genes :: "('so, 'sn, 'sg, 'p) item \<Rightarrow> error + 'sg list" where
  "item_genes (Saved_genes s) = Inr s"
| "item_genes x = Inl TypeError"

fun item_acc :: "('so, 'sn, 'sg, 'p) item \<Rightarrow> error + real option" where
  "item_acc (Saved_acc a) = Inr a"
| "item_acc x = Inl TypeError"

fun item_loss :: "('so, 'sn, 'sg, 'p) item \<Rightarrow> error + pyfloat" where
  "item_loss (Saved_loss l) = Inr l"
| "item_loss x = Inl TypeError"

fun item_int :: "('so, 'sn, 'sg, 'p) item \<Rightarrow> error + int" where
  "item_int (Saved_int i) = Inr i"
| "item_int x = Inl TypeError"

fun item_parameters :: "('so, 'sn, 'sg, 'p) item \<Rightarrow> error + 'p option" where
  "item_parameters (Saved_parameters p) = Inr p"
| "item_parameters x = Inl TypeError"

text \<open>
  The three unpacking assignments of \<^verbatim>\<open>load\<close>, for the fields they assign on
  \<^verbatim>\<open>self\<close>: five entries, nine entries, and in every other case eight targets.
\<close>

definition load_fields ::
  "('o, 'p) Genome \<Rightarrow> ('so, 'sn, 'sg, 'p) item list \<Rightarrow> error + ('o, 'p) Genome" where
  "load_fields g save =
     (if length save = 5 then
        and_then (item_acc (save ! 3)) (\<lambda>a.
        and_then (item_parameters (save ! 4)) (\<lambda>p.
          Inr (g\<lparr>acc := a, net_parameters := p\<rparr>)))
      else if length save = 9 then
        and_then (item_acc (save ! 3)) (\<lambda>a.
        and_then (item_loss (save ! 4)) (\<lambda>l.
        and_then (item_int (save ! 5)) (\<lambda>t.
        and_then (item_int (save ! 6)) (\<lambda>n.
        and_then (item_int (save ! 7)) (\<lambda>r.
        and_then (item_parameters (save ! 8)) (\<lambda>p.
          Inr (g\<lparr>acc := a, loss := l, trained := t, no_change := n, reward := r,
                 net_parameters := p\<rparr>)))))))
      else if length save = 8 then
        and_then (item_acc (save ! 3)) (\<lambda>a.
        and_then (item_loss (save ! 4)) (\<lambda>l.
        and_then (item_int (save ! 5)) (\<lambda>t.
        and_then (item_int (save ! 6)) (\<lambda>n.
        and_then (item_int (save ! 7)) (\<lambda>r.
          Inr (g\<lparr>acc := a, loss := l, trained := t, no_change := n, reward := r,
                 net_parameters := None\<rparr>))))))
      else Inl ValueError)"

definition load ::
  "('so, 'sn, 'sg, 'o) loaders \<Rightarrow> ('o, 'p) Genome \<Rightarrow> ('so, 'sn, 'sg, 'p) item list \<Rightarrow> bool \<Rightarrow>
   error + ('o, 'p) Genome" where
  "load ld g save load_params =
     and_then (load_fields g save) (\<lambda>g1.
       let g2 = (if \<not> load_params \<and> net_parameters g1 \<noteq> None
                 then g1\<lparr>net_parameters := None\<rparr> else g1)
       in and_then (item_optimizer (save ! 0)) (\<lambda>saved_optimizer.
          and_then (item_nodes (save ! 1)) (\<lambda>saved_nodes.
          and_then (item_genes (save ! 2)) (\<lambda>saved_genes.
            let ns = map (load_node ld) saved_nodes;
                gs = map (load_gene ld) saved_genes;
                (gd, nd) = dicts_by_id gs ns
            in Inr (g2\<lparr>optimizer := load_optimizer ld saved_optimizer,
                     nodes := ns, genes := gs, genes_by_id := gd, nodes_by_id := nd\<rparr>)))))"

definition example_loaders :: "(unit, Node, Gene, unit) loaders" where
  "example_loaders = \<lparr> load_optimizer = (\<lambda>s. s), load_node = (\<lambda>n. n), load_gene = (\<lambda>e. e) \<rparr>"

definition short_save :: "(unit, Node, Gene, unit) item list" where
  "short_save = [Saved_optimizer (), Saved_nodes [], Saved_genes [], Saved_acc None]"

section \<open>Properties of the gene hierarchy and the population\<close>

lemma nudge_cases: "nudge r \<in> {-2, -1, 1, 2}"
proof -
  have "r mod 4 < 4" by simp
  then have "r mod 4 = 0 \<or> r mod 4 = 1 \<or> r mod 4 = 2 \<or> r mod 4 = 3" by linarith
  then show ?thesis
    by (auto simp: nudge_def random_choice_def)
qed

lemma py_or_nonzero: "d \<noteq> 0 \<Longrightarrow> py_or x d \<noteq> 0"
  by (simp add: py_or_def split: option.splits)

lemma KernelGene_init_stride_nonzero:
  "k_stride (KernelGene_init depth width height stride padding rw rh) \<noteq> 0"
  by (simp add: KernelGene_init_def KernelGene_init_stride_def py_or_nonzero)

text \<open>
  C3. For every KernelGene and every three-element input size, \<^verbatim>\<open>output_size\<close> returns
  \<open>[depth, ((in_width - width + 2*padding - 1) // stride) + 1,
  ((in_height - height + 2*padding - 1) // stride) + 1]\<close>. This holds for every gene
  with a non-zero stride, and the constructor never produces a zero stride. For
  width 3, height 3, stride 1, padding 0 and depth 1 the input \<open>[1, 10, 10]\<close> gives
  \<open>[1, 7, 7]\<close>, since \<open>((10 - 3 + 0 - 1) // 1) + 1 = 7\<close>; with padding 1 and stride 2
  it gives the depth followed by 5, 5.
\<close>

theorem KernelGene_output_size_formula:
  "(k_stride g \<noteq> 0 \<longrightarrow>
      KernelGene_output_size g [in_depth, in_width, in_height] =
        Inr [k_depth g,
             ((in_width - k_width g + 2 * k_padding g - 1) div k_stride g) + 1,
             ((in_height - k_height g + 2 * k_padding g - 1) div k_stride g) + 1])
   \<and> (let c = KernelGene_init depth width height stride padding rw rh in
        KernelGene_output_size c [in_depth, in_width, in_height] =
          Inr [k_depth c,
               ((in_width - k_width c + 2 * k_padding c - 1) div k_stride c) + 1,
               ((in_height - k_height c + 2 * k_padding c - 1) div k_stride c) + 1])
   \<and> KernelGene_output_size
        \<lparr>k_depth = 1, k_width = 3, k_height = 3, k_stride = 1, k_padding = 0\<rparr> [1, 10, 10]
        = Inr [1, 7, 7]
   \<and> KernelGene_output_size
        \<lparr>k_depth = dep, k_width = 3, k_height = 3, k_stride = 2, k_padding = 1\<rparr> [1, 10, 10]
        = Inr [dep, 5, 5]"
  using KernelGene_init_stride_nonzero [of depth width height stride padding rw rh]
  by (simp add: Let_def)

theorem KernelGene_output_size_formula_witness:
  "k_stride \<lparr>k_depth = 4, k_width = 3, k_height = 5, k_stride = 3, k_padding = 2\<rparr> \<noteq> 0
   \<and> KernelGene_output_size
        \<lparr>k_depth = 4, k_width = 3, k_height = 5, k_stride = 3, k_padding = 2\<rparr> [7, 20, 30]
       = Inr [4, 7, 10]"
  using KernelGene_output_size_formula
    [of "\<lparr>k_depth = 4, k_width = 3, k_height = 5, k_stride = 3, k_padding = 2\<rparr>" 7 20 30]
  by simp

text \<open>
  C3 as first stated gives \<open>[1, 6, 6]\<close> for the first example; the code returns
  \<open>[1, 7, 7]\<close> there.
\<close>

theorem KernelGene_output_size_not_166:
  "KernelGene_output_size
     \<lparr>k_depth = 1, k_width = 3, k_height = 3, k_stride = 1, k_padding = 0\<rparr> [1, 10, 10]
     \<noteq> Inr [1, 6, 6]"
  by simp

text \<open>
  C4, evaluated on the code. The stride mutator applied to the default kernel
  (depth 1, stride 1) with the draw \<open>+2\<close> leaves the stride at 1 and moves the depth
  to 3; the padding mutator does the same and leaves the padding at 0.
\<close>

theorem KernelGene_mutate_stride_changes_depth:
  "KernelGene_mutate_stride 3
     \<lparr>k_depth = 1, k_width = 3, k_height = 3, k_stride = 1, k_padding = 0\<rparr>
     = \<lparr>k_depth = 3, k_width = 3, k_height = 3, k_stride = 1, k_padding = 0\<rparr>
   \<and> KernelGene_mutate_padding 3
     \<lparr>k_depth = 1, k_width = 3, k_height = 3, k_stride = 1, k_padding = 0\<rparr>
     = \<lparr>k_depth = 3, k_width = 3, k_height = 3, k_stride = 1, k_padding = 0\<rparr>"
  by (simp add: KernelGene_mutate_stride_def KernelGene_mutate_padding_def nudge_def
      random_choice_def)

text \<open>
  C5, evaluated on the code. Construction calls \<^verbatim>\<open>next_id\<close> five times, which issues
  the ids 0 to 4; the first id issued after construction is 5.
\<close>

theorem Population_init_first_id:
  "fst (next_id_times 5 \<lparr> id_generator = 0, n_genomes = 0 \<rparr>) = [0, 1, 2, 3, 4]
   \<and> fst (next_id (Population_init n)) = 5"
  by (simp add: Population_init_def next_id_def eval_nat_numeral)

lemma PoolGene_mutate_padding_ge_1: "1 \<le> p_padding (PoolGene_mutate_padding r g)"
  by (simp add: PoolGene_mutate_padding_def)

lemma PoolGene_mutate_padding_many_ge_1:
  "rs \<noteq> [] \<Longrightarrow> 1 \<le> p_padding (PoolGene_mutate_padding_many rs g)"
proof (induction rs arbitrary: g)
  case Nil
  then show ?case by simp
next
  case (Cons r rs)
  show ?case
  proof (cases rs)
    case Nil
    then show ?thesis by (simp add: PoolGene_mutate_padding_ge_1)
  next
    case (Cons r' rs')
    then have "rs \<noteq> []" by simp
    from Cons.IH [OF this] show ?thesis by simp
  qed
qed

text \<open>
  C10. A PoolGene built without a padding argument has padding 0. After any call of
  the padding mutator the padding is at least 1, whatever the draw and whatever the
  padding was before; so after one or more padding mutations in a row the padding is
  at least 1 and in particular never 0 again.
\<close>

theorem PoolGene_padding_floor:
  "p_padding (PoolGene_init pooling width height None rp rw rh) = 0
   \<and> 1 \<le> p_padding (PoolGene_mutate_padding r g)
   \<and> (rs \<noteq> [] \<longrightarrow> 1 \<le> p_padding (PoolGene_mutate_padding_many rs g)
        \<and> p_padding (PoolGene_mutate_padding_many rs g) \<noteq> 0)"
proof -
  have "rs \<noteq> [] \<Longrightarrow> p_padding (PoolGene_mutate_padding_many rs g) \<noteq> 0"
    using PoolGene_mutate_padding_many_ge_1 [of rs g] by simp
  then show ?thesis
    by (simp add: PoolGene_init_def PoolGene_init_padding_def PoolGene_mutate_padding_ge_1
        PoolGene_mutate_padding_many_ge_1)
qed

theorem PoolGene_padding_floor_witness:
  "[0, 1, 0] \<noteq> ([] :: nat list)
   \<and> p_padding (PoolGene_mutate_padding_many [0, 1, 0]
        \<lparr>p_pooling = Max_pool, p_width = 3, p_height = 3, p_padding = 0\<rparr>) = 1"
proof -
  have "p_padding (PoolGene_mutate_padding_many [0, 1, 0]
        \<lparr>p_pooling = Max_pool, p_width = 3, p_height = 3, p_padding = 0\<rparr>) = 1"
    by (simp add: PoolGene_mutate_padding_def nudge_def random_choice_def)
  moreover have "1 \<le> p_padding (PoolGene_mutate_padding_many [0, 1, 0]
        \<lparr>p_pooling = Max_pool, p_width = 3, p_height = 3, p_padding = 0\<rparr>)"
    using PoolGene_padding_floor [of None None None 0 0 0 0
        "\<lparr>p_pooling = Max_pool, p_width = 3, p_height = 3, p_padding = 0\<rparr>" "[0, 1, 0]"]
    by simp
  ultimately show ?thesis by simp
qed

section \<open>Reachability is kept by \<^verbatim>\<open>mutate_disable_edge\<close>\<close>

lemma dfs_for_True: "dfs_for rs = Some True \<Longrightarrow> Some True \<in> set rs"
  by (induction rs rule: dfs_for.induct) auto

lemma dfs_for_total: "None \<notin> set rs \<Longrightarrow> dfs_for rs \<noteq> None"
  by (induction rs rule: dfs_for.induct) auto

lemma enabled_pairs_step:
  "e \<in> set (genes g) \<Longrightarrow> enabled e \<Longrightarrow> (id_in e, id_out e) \<in> enabled_pairs g"
  by (force simp: enabled_pairs_def)

lemma dfs_sound: "dfs fuel g s t = Some True \<Longrightarrow> reachable g s t"
proof (induction fuel arbitrary: s)
  case 0
  then show ?case by simp
next
  case (Suc fuel)
  show ?case
  proof (cases "s = t")
    case True
    then show ?thesis by (simp add: reachable_def)
  next
    case False
    let ?neig = "map id_out (filter (\<lambda>gene. id_in gene = s \<and> enabled gene) (genes g))"
    from Suc.prems False have "dfs_for (map (\<lambda>p. dfs fuel g p t) ?neig) = Some True"
      by (simp add: Let_def split: if_splits)
    then have "Some True \<in> set (map (\<lambda>p. dfs fuel g p t) ?neig)"
      by (rule dfs_for_True)
    then obtain e where e: "e \<in> set (genes g)" "id_in e = s" "enabled e"
      and call: "dfs fuel g (id_out e) t = Some True"
      by auto
    from call have "reachable g (id_out e) t" by (rule Suc.IH)
    moreover from e have "(s, id_out e) \<in> enabled_pairs g"
      using enabled_pairs_step by blast
    ultimately show ?thesis
      by (simp add: reachable_def converse_rtrancl_into_rtrancl)
  qed
qed

lemma enabled_edges_mem:
  "j \<in> set (enabled_edges g) \<Longrightarrow> j < length (genes g) \<and> enabled (genes g ! j)"
  by (simp add: enabled_edges_def)

lemma random_choice_mem: "xs \<noteq> [] \<Longrightarrow> random_choice k xs \<in> set xs"
  by (simp add: random_choice_def)

lemma set_enabled_restore:
  "j < length (genes g) \<Longrightarrow> enabled (genes g ! j) \<Longrightarrow>
   set_enabled j True (set_enabled j False g) = g"
  by (simp add: set_enabled_def list_update_same_conv)

lemma disable_edge_reachable:
  assumes "disable_edge fuel g j = Inr (g', b)"
    and "j < length (genes g)" "enabled (genes g ! j)"
  shows "(b \<longrightarrow> reachable g' 0 2) \<and> (\<not> b \<longrightarrow> g' = g)"
  using assms
  by (auto simp: disable_edge_def Let_def set_enabled_restore dfs_sound
      split: option.splits bool.splits)

lemma mutate_disable_edge_loop_reachable:
  assumes "mutate_disable_edge_loop fuel g edges tries rnd = Inr g'"
    and "edges = enabled_edges g" "edges \<noteq> []" "reachable g 0 2"
  shows "reachable g' 0 2"
  using assms
proof (induction tries arbitrary: rnd)
  case 0
  then show ?case by simp
next
  case (Suc tries)
  let ?j = "random_choice (rnd 0) edges"
  have j: "?j < length (genes g)" "enabled (genes g ! ?j)"
    using Suc.prems(2,3) random_choice_mem [of edges "rnd 0"] enabled_edges_mem [of ?j g]
    by auto
  show ?case
  proof (cases "disable_edge fuel g ?j")
    case (Inl e)
    with Suc.prems(1) show ?thesis by simp
  next
    case (Inr r)
    obtain g1 b where r: "r = (g1, b)" by (cases r)
    from disable_edge_reachable [OF Inr [unfolded r] j]
    have d: "b \<longrightarrow> reachable g1 0 2" "\<not> b \<longrightarrow> g1 = g" by auto
    show ?thesis
    proof (cases b)
      case True
      with Suc.prems(1) Inr r d show ?thesis by simp
    next
      case False
      with d have "g1 = g" by simp
      with Suc.prems(1) Inr r False
      have "mutate_disable_edge_loop fuel g edges tries (\<lambda>k. rnd (Suc k)) = Inr g'"
        by simp
      from Suc.IH [OF this Suc.prems(2,3,4)] show ?thesis .
    qed
  qed
qed

lemma mutate_disable_edge_reachable:
  "mutate_disable_edge fuel g tries rnd = Inr g' \<Longrightarrow> reachable g 0 2 \<Longrightarrow> reachable g' 0 2"
  using mutate_disable_edge_loop_reachable [of fuel g "enabled_edges g" tries rnd g']
  by (auto simp: mutate_disable_edge_def Let_def split: if_splits)

lemma deeper_trans: "deeper g a b \<Longrightarrow> deeper g b c \<Longrightarrow> deeper g a c"
  by (auto simp: deeper_def split: option.splits)

lemma deeper_irrefl: "\<not> deeper g a a"
  by (auto simp: deeper_def split: option.splits)

lemma forward_gene_deeper: "forward_gene g e = deeper g (id_in e) (id_out e)"
  by (simp add: forward_gene_def deeper_def)

lemma filter_length_less:
  assumes "\<And>x. x \<in> set xs \<Longrightarrow> P x \<Longrightarrow> Q x"
    and "y \<in> set xs" "Q y" "\<not> P y"
  shows "length (filter P xs) < length (filter Q xs)"
  using assms
proof (induction xs)
  case Nil
  then show ?case by simp
next
  case (Cons x xs)
  have le: "length (filter P xs) \<le> length (filter Q xs)"
  proof -
    have "length (filter P (filter Q xs)) \<le> length (filter Q xs)" by (rule length_filter_le)
    moreover have "filter P (filter Q xs) = filter P xs"
      using Cons.prems(1) by (induction xs) auto
    ultimately show ?thesis by simp
  qed
  show ?case
  proof (cases "y = x")
    case True
    with Cons.prems le show ?thesis by simp
  next
    case False
    with Cons.prems have "y \<in> set xs" by simp
    from Cons.IH [OF _ this Cons.prems(3,4)] Cons.prems(1)
    have "length (filter P xs) < length (filter Q xs)" by simp
    with Cons.prems(1) [of x] show ?thesis by auto
  qed
qed

lemma dfs_rank_step:
  assumes "e \<in> set (genes g)" "forward_gene g e"
  shows "dfs_rank g (id_out e) < dfs_rank g (id_in e)"
  unfolding dfs_rank_def
proof (rule filter_length_less [where y = e])
  fix x assume "deeper g (id_out e) (id_out x)"
  with assms(2) show "deeper g (id_in e) (id_out x)"
    using deeper_trans forward_gene_deeper by blast
next
  show "e \<in> set (genes g)" by fact
  show "deeper g (id_in e) (id_out e)" using assms(2) by (simp add: forward_gene_deeper)
  show "\<not> deeper g (id_out e) (id_out e)" by (rule deeper_irrefl)
qed

lemma dfs_total:
  "feed_forward g \<Longrightarrow> dfs_rank g s < fuel \<Longrightarrow> dfs fuel g s t \<noteq> None"
proof (induction fuel arbitrary: s)
  case 0
  then show ?case by simp
next
  case (Suc fuel)
  let ?neig = "map id_out (filter (\<lambda>gene. id_in gene = s \<and> enabled gene) (genes g))"
  have "None \<notin> set (map (\<lambda>p. dfs fuel g p t) ?neig)"
  proof
    assume "None \<in> set (map (\<lambda>p. dfs fuel g p t) ?neig)"
    then obtain e where e: "e \<in> set (genes g)" "id_in e = s"
      and none: "dfs fuel g (id_out e) t = None"
      by auto
    from Suc.prems(1) e(1) have "forward_gene g e"
      by (simp add: feed_forward_def list_all_iff)
    from dfs_rank_step [OF e(1) this] e(2) Suc.prems(2)
    have "dfs_rank g (id_out e) < fuel" by simp
    from Suc.IH [OF Suc.prems(1) this] none show False by simp
  qed
  then have "dfs_for (map (\<lambda>p. dfs fuel g p t) ?neig) \<noteq> None"
    by (rule dfs_for_total)
  then show ?case by (auto simp: Let_def)
qed

lemma dfs_rank_le: "dfs_rank g s \<le> length (genes g)"
  by (simp add: dfs_rank_def)

lemma depth_of_set_enabled [simp]: "depth_of (set_enabled j b g) = depth_of g"
  by (rule ext) (auto simp: depth_of_def node_by_id_def set_enabled_def split: option.splits)

lemma length_genes_set_enabled [simp]: "length (genes (set_enabled j b g)) = length (genes g)"
  by (simp add: set_enabled_def)

lemma forward_gene_set_enabled [simp]: "forward_gene (set_enabled j b g) = forward_gene g"
  by (rule ext) (simp add: forward_gene_def)

lemma forward_gene_enabled_update [simp]:
  "forward_gene g (e\<lparr>enabled := b\<rparr>) = forward_gene g e"
  by (simp add: forward_gene_def)

lemma genes_set_enabled_subset:
  "set (genes (set_enabled j b g)) \<subseteq> insert ((genes g ! j)\<lparr>enabled := b\<rparr>) (set (genes g))"
  by (simp add: set_enabled_def set_update_subset_insert)

lemma feed_forward_set_enabled:
  assumes "feed_forward g"
  shows "feed_forward (set_enabled j b g)"
proof (cases "j < length (genes g)")
  case True
  have "forward_gene g x" if "x \<in> set (genes (set_enabled j b g))" for x
  proof -
    from that genes_set_enabled_subset [of j b g]
    have "x = (genes g ! j)\<lparr>enabled := b\<rparr> \<or> x \<in> set (genes g)" by auto
    with assms True show ?thesis
      by (auto simp: feed_forward_def list_all_iff)
  qed
  then show ?thesis
    unfolding feed_forward_def forward_gene_set_enabled list_all_iff by blast
next
  case False
  then have "genes (set_enabled j b g) = genes g"
    by (simp add: set_enabled_def list_update_beyond)
  with assms show ?thesis
    unfolding feed_forward_def forward_gene_set_enabled by simp
qed

lemma disable_edge_total:
  assumes "feed_forward g" "length (genes g) < fuel"
  shows "\<exists>r. disable_edge fuel g j = Inr r"
proof -
  have "feed_forward (set_enabled j False g)" using assms(1) by (rule feed_forward_set_enabled)
  moreover have "dfs_rank (set_enabled j False g) 0 < fuel"
    using dfs_rank_le [of "set_enabled j False g" 0] assms(2) by simp
  ultimately have "dfs fuel (set_enabled j False g) 0 2 \<noteq> None" by (rule dfs_total)
  then show ?thesis
    by (auto simp: disable_edge_def Let_def split: option.splits bool.splits)
qed

lemma mutate_disable_edge_loop_total:
  assumes "feed_forward g" "length (genes g) < fuel" "edges = enabled_edges g" "edges \<noteq> []"
  shows "\<exists>g'. mutate_disable_edge_loop fuel g edges tries rnd = Inr g'"
  using assms
proof (induction tries arbitrary: rnd)
  case 0
  then show ?case by simp
next
  case (Suc tries)
  let ?j = "random_choice (rnd 0) edges"
  have j: "?j < length (genes g)" "enabled (genes g ! ?j)"
    using Suc.prems(3,4) random_choice_mem [of edges "rnd 0"] enabled_edges_mem [of ?j g]
    by auto
  from disable_edge_total [OF Suc.prems(1,2)]
  obtain g1 b where r: "disable_edge fuel g ?j = Inr (g1, b)" by force
  show ?case
  proof (cases b)
    case True
    with r show ?thesis by simp
  next
    case False
    with disable_edge_reachable [OF r j] have "g1 = g" by simp
    with r False Suc.IH [OF Suc.prems, of "\<lambda>k. rnd (Suc k)"] show ?thesis by simp
  qed
qed

lemma mutate_disable_edge_total:
  "feed_forward g \<Longrightarrow> length (genes g) < fuel \<Longrightarrow>
   \<exists>g'. mutate_disable_edge fuel g tries rnd = Inr g'"
  using mutate_disable_edge_loop_total [of g fuel "enabled_edges g" tries rnd]
  by (auto simp: mutate_disable_edge_def Let_def)

lemma triangle_simps:
  "genes triangle = [example_gene 3 0 1 True, example_gene 4 1 2 True, example_gene 5 0 2 True]"
  "nodes triangle = [example_node 0 0, example_node 1 1, example_node 2 2]"
  "nodes_by_id triangle = [(0, 0), (1, 1), (2, 2)]"
  by (simp_all add: triangle_def example_genome_def Genome_init_def dicts_by_id_def
      example_gene_def example_node_def)

lemma triangle_ff: "feed_forward triangle"
  by (simp add: feed_forward_def forward_gene_def depth_of_def node_by_id_def triangle_simps
      example_gene_def example_node_def)

lemma triangle_reach: "reachable triangle 0 2"
proof -
  have "(0, 2) \<in> enabled_pairs triangle"
    by (simp add: enabled_pairs_def triangle_simps example_gene_def)
  then show ?thesis by (simp add: reachable_def r_into_rtrancl)
qed

lemma triangle_edges: "enabled_edges triangle = [0, 1, 2]"
  by (simp add: enabled_edges_def triangle_simps example_gene_def upt_rec)

lemma triangle_run:
  "mutate_disable_edge 4 triangle 2 (\<lambda>k. 0) = Inr (set_enabled 0 False triangle)"
  by code_simp

text \<open>
  C2. If node 2 is reachable from node 0 through enabled edges and
  \<^verbatim>\<open>mutate_disable_edge\<close> returns, node 2 is still reachable from node 0 through
  enabled edges. The call returns whenever the genome is feed-forward and the
  recursion budget of \<^verbatim>\<open>dfs\<close> exceeds the number of genes. A tentative disable that
  \<^verbatim>\<open>dfs\<close> reports as breaking the connection is reverted: \<^verbatim>\<open>disable_edge\<close> then
  returns the genome it was given.
\<close>

theorem mutate_disable_edge_keeps_output_reachable:
  "(reachable g 0 2 \<and> mutate_disable_edge fuel g tries rnd = Inr g' \<longrightarrow> reachable g' 0 2)
   \<and> (feed_forward g \<and> length (genes g) < fuel \<longrightarrow>
        (\<exists>g''. mutate_disable_edge fuel g tries rnd = Inr g''))
   \<and> (j \<in> set (enabled_edges g) \<and> disable_edge fuel g j = Inr (g1, False) \<longrightarrow> g1 = g)"
proof (intro conjI impI)
  assume "reachable g 0 2 \<and> mutate_disable_edge fuel g tries rnd = Inr g'"
  then show "reachable g' 0 2"
    using mutate_disable_edge_reachable by blast
next
  assume "feed_forward g \<and> length (genes g) < fuel"
  then show "\<exists>g''. mutate_disable_edge fuel g tries rnd = Inr g''"
    using mutate_disable_edge_total by blast
next
  assume a: "j \<in> set (enabled_edges g) \<and> disable_edge fuel g j = Inr (g1, False)"
  then have "j < length (genes g)" "enabled (genes g ! j)"
    using enabled_edges_mem by blast+
  with a disable_edge_reachable [of fuel g j g1 False] show "g1 = g" by simp
qed

theorem mutate_disable_edge_keeps_output_reachable_witness:
  "reachable triangle 0 2 \<and> feed_forward triangle \<and> length (genes triangle) < 4
   \<and> mutate_disable_edge 4 triangle 2 (\<lambda>k. 0) = Inr (set_enabled 0 False triangle)
   \<and> reachable (set_enabled 0 False triangle) 0 2"
  using mutate_disable_edge_keeps_output_reachable
      [of triangle 4 2 "\<lambda>k. 0" "set_enabled 0 False triangle"]
    triangle_run triangle_ff triangle_reach
  by (simp add: triangle_simps)

section \<open>Splitting an edge\<close>

lemma split_innovation_miss:
  assumes "map_of c k = None"
  shows "split_innovation fl c pop k d1 d2 r =
     ((id_generator pop, id_generator pop + 1, id_generator pop + 2, split_depth fl d1 d2 r),
      AList.update k
        (id_generator pop, id_generator pop + 1, id_generator pop + 2, split_depth fl d1 d2 r) c,
      pop\<lparr>id_generator := id_generator pop + 3\<rparr>)"
  using assms by (simp add: split_innovation_def next_id_def Let_def add.commute)

lemma split_innovation_hit:
  assumes "map_of c k = Some entry"
  shows "split_innovation fl c pop k d1 d2 r = (entry, c, pop)"
  using assms by (simp add: split_innovation_def)

lemma split_innovation_cached:
  assumes "split_innovation fl c pop k d1 d2 r = (entry, c', pop')"
  shows "map_of c' k = Some entry"
proof (cases "map_of c k")
  case None
  from assms [unfolded split_innovation_miss [OF None]] show ?thesis
    by (auto simp: update_conv')
next
  case (Some a)
  from assms [unfolded split_innovation_hit [OF Some]] Some show ?thesis by simp
qed

lemma split_edge_Inr:
  assumes "split_edge fl g c pop re rn rm dc da = Inr (g', c', pop')"
    and "enabled_edges g \<noteq> []"
    and "j = random_choice re (enabled_edges g)" and "e = genes g ! j"
  shows "\<exists>node_in node_out id1 id2 id3 dep.
     node_by_id g (id_in e) = Inr node_in \<and> node_by_id g (id_out e) = Inr node_out
     \<and> split_innovation fl c pop (g_id e) (n_depth node_in) (n_depth node_out) rn
         = ((id1, id2, id3, dep), c', pop')
     \<and> nodes g' = nodes g @ [Node_init id1 dep None None rm]
     \<and> genes g' = (genes g)[j := e\<lparr>enabled := False\<rparr>]
          @ [Gene_copy e id2 (id_in e) id1 dc, Gene_add_after e id3 id1 (id_out e) da]
     \<and> nodes_by_id g' = AList.update id1 (length (nodes g)) (nodes_by_id g)
     \<and> genes_by_id g' = AList.update id3 (Suc (length (genes g)))
          (AList.update id2 (length (genes g)) (genes_by_id g))"
proof -
  from assms obtain node_in where a: "node_by_id g (id_in e) = Inr node_in"
    by (cases "node_by_id g (id_in e)") (auto simp: split_edge_def Let_def)
  from assms a obtain node_out where b: "node_by_id g (id_out e) = Inr node_out"
    by (cases "node_by_id g (id_out e)") (auto simp: split_edge_def Let_def)
  obtain id1 id2 id3 dep c1 p1 where
    si: "split_innovation fl c pop (g_id e) (n_depth node_in) (n_depth node_out) rn
         = ((id1, id2, id3, dep), c1, p1)"
    by (metis prod_cases3)
  from assms a b si show ?thesis
    by (auto simp: split_edge_def Let_def set_enabled_def Node_init_def)
qed

lemma chain_simps:
  "genes chain = [example_gene 3 0 1 True, example_gene 4 1 2 True]"
  "nodes chain = [example_node 0 0, example_node 1 1, example_node 2 2]"
  "nodes_by_id chain = [(0, 0), (1, 1), (2, 2)]"
  by (simp_all add: chain_def example_genome_def Genome_init_def dicts_by_id_def
      example_gene_def example_node_def)

lemma chain_ff: "feed_forward chain"
  by (simp add: feed_forward_def forward_gene_def depth_of_def node_by_id_def chain_simps
      example_gene_def example_node_def)

lemma chain_edges: "enabled_edges chain = [0, 1]"
  by (simp add: enabled_edges_def chain_simps example_gene_def upt_rec)

lemma Gene_copy_header [simp]:
  "g_id (Gene_copy e i a b d) = i" "id_in (Gene_copy e i a b d) = a"
  "id_out (Gene_copy e i a b d) = b" "enabled (Gene_copy e i a b d)"
  by (simp_all add: Gene_copy_def)

lemma Gene_new_header [simp]:
  "g_id (Gene_new cls i a b d) = i" "id_in (Gene_new cls i a b d) = a"
  "id_out (Gene_new cls i a b d) = b" "enabled (Gene_new cls i a b d)"
  by (simp_all add: Gene_new_def)

lemma Gene_add_after_header [simp]:
  "g_id (Gene_add_after e i a b d) = i" "id_in (Gene_add_after e i a b d) = a"
  "id_out (Gene_add_after e i a b d) = b" "enabled (Gene_add_after e i a b d)"
  by (simp_all add: Gene_add_after_def split: prod.splits)

lemma Node_init_fields [simp]:
  "n_id (Node_init i d m r rm) = i" "n_depth (Node_init i d m r rm) = d"
  by (simp_all add: Node_init_def)

lemma split_edge_eq:
  assumes "enabled_edges g \<noteq> []"
    and "j = random_choice re (enabled_edges g)" and "e = genes g ! j"
    and "node_by_id g (id_in e) = Inr node_in" and "node_by_id g (id_out e) = Inr node_out"
    and "split_innovation fl c pop (g_id e) (n_depth node_in) (n_depth node_out) rn
         = ((id1, id2, id3, dep), c', pop')"
  shows "split_edge fl g c pop re rn rm dc da =
     Inr (g\<lparr>nodes := nodes g @ [Node_init id1 dep None None rm],
            genes := (genes g)[j := e\<lparr>enabled := False\<rparr>]
               @ [Gene_copy e id2 (id_in e) id1 dc, Gene_add_after e id3 id1 (id_out e) da],
            nodes_by_id := AList.update id1 (length (nodes g)) (nodes_by_id g),
            genes_by_id := AList.update id3 (Suc (length (genes g)))
               (AList.update id2 (length (genes g)) (genes_by_id g))\<rparr>, c', pop')"
  using assms by (simp add: split_edge_def Let_def set_enabled_def Node_init_def)

text \<open>
  What \<^verbatim>\<open>split_edge\<close> returns on the two example genomes with an empty cache, for any
  rounding and any normal draw.
\<close>

lemma chain_selected:
  "enabled_edges chain \<noteq> []" "random_choice 0 (enabled_edges chain) = 0"
  "genes chain ! 0 = example_gene 3 0 1 True"
  "node_by_id chain 0 = Inr (example_node 0 0)" "node_by_id chain 1 = Inr (example_node 1 1)"
  "length (nodes chain) = 3" "length (genes chain) = 2"
  by code_simp+

lemma chain_run:
  "split_edge fl chain [] (population_at 5) 0 r rm dc da =
     Inr (chain\<lparr>nodes := nodes chain @ [Node_init 5 (split_depth fl 0 1 r) None None rm],
            genes := (genes chain)[0 := (example_gene 3 0 1 True)\<lparr>enabled := False\<rparr>]
               @ [Gene_copy (example_gene 3 0 1 True) 6 0 5 dc,
                  Gene_add_after (example_gene 3 0 1 True) 7 5 1 da],
            nodes_by_id := AList.update 5 3 (nodes_by_id chain),
            genes_by_id := AList.update 7 3 (AList.update 6 2 (genes_by_id chain))\<rparr>,
          [(3, (5, 6, 7, split_depth fl 0 1 r))], population_at 8)"
proof -
  have ids: "g_id (example_gene 3 0 1 True) = 3" "id_in (example_gene 3 0 1 True) = 0"
    "id_out (example_gene 3 0 1 True) = 1"
    by (simp_all add: example_gene_def)
  have depths: "n_depth (example_node 0 0) = 0" "n_depth (example_node 1 1) = 1"
    by (simp_all add: example_node_def)
  have inn: "split_innovation fl [] (population_at 5) 3 0 1 r =
      ((5, 6, 7, split_depth fl 0 1 r), [(3, (5, 6, 7, split_depth fl 0 1 r))], population_at 8)"
    by (simp add: split_innovation_miss population_at_def)
  have "split_edge fl chain [] (population_at 5) 0 r rm dc da =
     Inr (chain\<lparr>nodes := nodes chain @ [Node_init 5 (split_depth fl 0 1 r) None None rm],
            genes := (genes chain)[0 := (example_gene 3 0 1 True)\<lparr>enabled := False\<rparr>]
               @ [Gene_copy (example_gene 3 0 1 True) 6 (id_in (example_gene 3 0 1 True)) 5 dc,
                  Gene_add_after (example_gene 3 0 1 True) 7 5
                    (id_out (example_gene 3 0 1 True)) da],
            nodes_by_id := AList.update 5 (length (nodes chain)) (nodes_by_id chain),
            genes_by_id := AList.update 7 (Suc (length (genes chain)))
               (AList.update 6 (length (genes chain)) (genes_by_id chain))\<rparr>,
          [(3, (5, 6, 7, split_depth fl 0 1 r))], population_at 8)"
  proof (rule split_edge_eq [where j = 0 and node_in = "example_node 0 0"
        and node_out = "example_node 1 1"])
    show "enabled_edges chain \<noteq> []" by (rule chain_selected)
    show "0 = random_choice 0 (enabled_edges chain)" by (simp add: chain_selected)
    show "example_gene 3 0 1 True = genes chain ! 0" by (simp add: chain_selected)
    show "node_by_id chain (id_in (example_gene 3 0 1 True)) = Inr (example_node 0 0)"
      unfolding ids by (rule chain_selected)
    show "node_by_id chain (id_out (example_gene 3 0 1 True)) = Inr (example_node 1 1)"
      unfolding ids by (rule chain_selected)
    show "split_innovation fl [] (population_at 5) (g_id (example_gene 3 0 1 True))
        (n_depth (example_node 0 0)) (n_depth (example_node 1 1)) r =
      ((5, 6, 7, split_depth fl 0 1 r), [(3, (5, 6, 7, split_depth fl 0 1 r))], population_at 8)"
      unfolding ids depths by (rule inn)
  qed
  then show ?thesis unfolding ids chain_selected by simp
qed

lemma tight_selected:
  "enabled_edges tight_genome \<noteq> []" "random_choice 1 (enabled_edges tight_genome) = 2"
  "genes tight_genome ! 2 = example_gene 6 1 5 True"
  "node_by_id tight_genome 1 = Inr (example_node 1 1)"
  "node_by_id tight_genome 5 = Inr (example_node 5 (1 + 1 / 2 ^ 52))"
  "length (nodes tight_genome) = 4" "length (genes tight_genome) = 4"
  by code_simp+

lemma tight_facts:
  "feed_forward tight_genome"
  "map g_id (genes tight_genome) = [3, 4, 6, 7]"
  "map enabled (genes tight_genome) = [True, False, True, True]"
  "map n_depth (nodes tight_genome) = [0, 1, 2, 1 + 1 / 2 ^ 52]"
  "depth_of tight_genome 1 = Some 1" "depth_of tight_genome 5 = Some (1 + 1 / 2 ^ 52)"
  by code_simp+

lemma tight_run:
  "split_edge fl tight_genome [] (population_at 8) 1 r rm dc da =
     Inr (tight_genome\<lparr>nodes := nodes tight_genome
               @ [Node_init 8 (split_depth fl 1 (1 + 1 / 2 ^ 52) r) None None rm],
            genes := (genes tight_genome)[2 := (example_gene 6 1 5 True)\<lparr>enabled := False\<rparr>]
               @ [Gene_copy (example_gene 6 1 5 True) 9 1 8 dc,
                  Gene_add_after (example_gene 6 1 5 True) 10 8 5 da],
            nodes_by_id := AList.update 8 4 (nodes_by_id tight_genome),
            genes_by_id := AList.update 10 5 (AList.update 9 4 (genes_by_id tight_genome))\<rparr>,
          [(6, (8, 9, 10, split_depth fl 1 (1 + 1 / 2 ^ 52) r))], population_at 11)"
proof -
  have ids: "g_id (example_gene 6 1 5 True) = 6" "id_in (example_gene 6 1 5 True) = 1"
    "id_out (example_gene 6 1 5 True) = 5"
    by (simp_all add: example_gene_def)
  have depths: "n_depth (example_node 1 1) = 1"
    "n_depth (example_node 5 (1 + 1 / 2 ^ 52)) = 1 + 1 / 2 ^ 52"
    by (simp_all add: example_node_def)
  have inn: "split_innovation fl [] (population_at 8) 6 1 (1 + 1 / 2 ^ 52) r =
      ((8, 9, 10, split_depth fl 1 (1 + 1 / 2 ^ 52) r),
       [(6, (8, 9, 10, split_depth fl 1 (1 + 1 / 2 ^ 52) r))], population_at 11)"
    by (simp add: split_innovation_miss population_at_def)
  have "split_edge fl tight_genome [] (population_at 8) 1 r rm dc da =
     Inr (tight_genome\<lparr>nodes := nodes tight_genome
               @ [Node_init 8 (split_depth fl 1 (1 + 1 / 2 ^ 52) r) None None rm],
            genes := (genes tight_genome)[2 := (example_gene 6 1 5 True)\<lparr>enabled := False\<rparr>]
               @ [Gene_copy (example_gene 6 1 5 True) 9 (id_in (example_gene 6 1 5 True)) 8 dc,
                  Gene_add_after (example_gene 6 1 5 True) 10 8
                    (id_out (example_gene 6 1 5 True)) da],
            nodes_by_id := AList.update 8 (length (nodes tight_genome)) (nodes_by_id tight_genome),
            genes_by_id := AList.update 10 (Suc (length (genes tight_genome)))
               (AList.update 9 (length (genes tight_genome)) (genes_by_id tight_genome))\<rparr>,
          [(6, (8, 9, 10, split_depth fl 1 (1 + 1 / 2 ^ 52) r))], population_at 11)"
  proof (rule split_edge_eq [where j = 2 and node_in = "example_node 1 1"
        and node_out = "example_node 5 (1 + 1 / 2 ^ 52)"])
    show "enabled_edges tight_genome \<noteq> []" by (rule tight_selected)
    show "2 = random_choice 1 (enabled_edges tight_genome)"
      by (rule tight_selected(2) [symmetric])
    show "example_gene 6 1 5 True = genes tight_genome ! 2" by (simp add: tight_selected)
    show "node_by_id tight_genome (id_in (example_gene 6 1 5 True)) = Inr (example_node 1 1)"
      unfolding ids by (rule tight_selected)
    show "node_by_id tight_genome (id_out (example_gene 6 1 5 True))
        = Inr (example_node 5 (1 + 1 / 2 ^ 52))"
      unfolding ids by (rule tight_selected)
    show "split_innovation fl [] (population_at 8) (g_id (example_gene 6 1 5 True))
        (n_depth (example_node 1 1)) (n_depth (example_node 5 (1 + 1 / 2 ^ 52))) r =
      ((8, 9, 10, split_depth fl 1 (1 + 1 / 2 ^ 52) r),
       [(6, (8, 9, 10, split_depth fl 1 (1 + 1 / 2 ^ 52) r))], population_at 11)"
      unfolding ids depths by (rule inn)
  qed
  then show ?thesis unfolding ids tight_selected by simp
qed

text \<open>The roundings of line 162 at the depths 1.0 and \<open>1 + 2^-52\<close>, and at 0 and 1.\<close>

lemma round_double_tight:
  "round_double (1 + 1 / 2 ^ 52 - 1) = 1 / 2 ^ 52"
  "round_double (1 / 2 ^ 52 / 10) = 7205759403792794 / 2 ^ 108"
  "round_double (1 + 7205759403792794 / 2 ^ 108) = 1"
  "round_double (1 + 1 / 2 ^ 52 - 7205759403792794 / 2 ^ 108) = 1 + 1 / 2 ^ 52"
  by code_simp+

lemma split_depth_tight:
  "split_depth round_double 1 (1 + 1 / 2 ^ 52) r = min (1 + 1 / 2 ^ 52) (max 1 r)"
  unfolding split_depth_def round_double_tight ..

lemma round_double_unit:
  "round_double (1 - 0) = 1"
  "round_double (1 / 10) = 3602879701896397 / 2 ^ 55"
  "round_double (0 + 3602879701896397 / 2 ^ 55) = 3602879701896397 / 2 ^ 55"
  "round_double (1 - 3602879701896397 / 2 ^ 55) = 8106479329266893 / 2 ^ 53"
  by code_simp+

lemma split_depth_unit:
  "split_depth round_double 0 1 r
     = min (8106479329266893 / 2 ^ 53) (max (3602879701896397 / 2 ^ 55) r)"
  unfolding split_depth_def round_double_unit ..

text \<open>
  C1, evaluated on the code. \<open>tight_genome\<close> is feed-forward: its enabled edge 6 leads
  from node 1 (depth 1.0) to node 5 (depth \<open>1 + 2^-52\<close>, the next float). In floats
  \<open>(d2 - d1) / 10\<close> is about \<open>2.2e-17\<close>, less than half the distance between the two
  depths, so \<open>d1 + (d2 - d1) / 10\<close> rounds to \<open>d1\<close> and \<open>d2 - (d2 - d1) / 10\<close> rounds to
  \<open>d2\<close>: the clamp interval is \<open>[d1, d2]\<close>, and whatever the normal draw \<open>r\<close> is, the new
  depth is \<open>min d2 (max d1 r)\<close>. \<^verbatim>\<open>split_edge\<close> on edge 6 with an empty cache gives the
  new node the depth of the edge's source when the draw is 0.9921875 and the depth
  of its target when the draw is 1.0078125; in neither case does the depth lie
  strictly between the two, and the genome then holds two nodes of one depth. The
  rest of what the claim says holds here: one node and two genes are appended, and
  edge 6 is still in the list, disabled.
\<close>

theorem split_edge_depth_reaches_endpoint:
  "feed_forward tight_genome
   \<and> random_choice 1 (enabled_edges tight_genome) = 2
   \<and> map g_id (genes tight_genome) = [3, 4, 6, 7]
   \<and> id_in (genes tight_genome ! 2) = 1 \<and> id_out (genes tight_genome ! 2) = 5
   \<and> depth_of tight_genome 1 = Some 1 \<and> depth_of tight_genome 5 = Some (1 + 1 / 2 ^ 52)
   \<and> (\<forall>r. split_depth round_double 1 (1 + 1 / 2 ^ 52) r = min (1 + 1 / 2 ^ 52) (max 1 r))
   \<and> split_depth round_double 1 (1 + 1 / 2 ^ 52) (127 / 128) = 1
   \<and> split_depth round_double 1 (1 + 1 / 2 ^ 52) (129 / 128) = 1 + 1 / 2 ^ 52
   \<and> \<not> isl (split_edge round_double tight_genome [] (population_at 8) 1 (127 / 128) 0
          no_draws no_draws)
   \<and> map n_depth (nodes (fst (projr
        (split_edge round_double tight_genome [] (population_at 8) 1 (127 / 128) 0
           no_draws no_draws))))
       = [0, 1, 2, 1 + 1 / 2 ^ 52, 1]
   \<and> map g_id (genes (fst (projr
        (split_edge round_double tight_genome [] (population_at 8) 1 (127 / 128) 0
           no_draws no_draws))))
       = [3, 4, 6, 7, 9, 10]
   \<and> map enabled (genes (fst (projr
        (split_edge round_double tight_genome [] (population_at 8) 1 (127 / 128) 0
           no_draws no_draws))))
       = [True, False, False, True, True, True]
   \<and> map n_depth (nodes (fst (projr
        (split_edge round_double tight_genome [] (population_at 8) 1 (129 / 128) 0
           no_draws no_draws))))
       = [0, 1, 2, 1 + 1 / 2 ^ 52, 1 + 1 / 2 ^ 52]"
proof -
  have d: "\<forall>r. split_depth round_double 1 (1 + 1 / 2 ^ 52) r = min (1 + 1 / 2 ^ 52) (max 1 r)"
    by (rule allI) (rule split_depth_tight)
  have d1: "split_depth round_double 1 (1 + 1 / 2 ^ 52) (127 / 128) = 1"
    unfolding split_depth_tight by simp
  have d2: "split_depth round_double 1 (1 + 1 / 2 ^ 52) (129 / 128) = 1 + 1 / 2 ^ 52"
    unfolding split_depth_tight by simp
  have sel: "id_in (genes tight_genome ! 2) = 1" "id_out (genes tight_genome ! 2) = 5"
    unfolding tight_selected by (simp_all add: example_gene_def)
  have ids: "map g_id (genes (fst (projr
        (split_edge round_double tight_genome [] (population_at 8) 1 (127 / 128) 0
           no_draws no_draws))))
       = [3, 4, 6, 7, 9, 10]"
    unfolding tight_run using tight_facts(2) tight_selected(7)
    by (simp add: map_update example_gene_def)
  have en: "map enabled (genes (fst (projr
        (split_edge round_double tight_genome [] (population_at 8) 1 (127 / 128) 0
           no_draws no_draws))))
       = [True, False, False, True, True, True]"
    unfolding tight_run using tight_facts(3) tight_selected(7)
    by (simp add: map_update)
  have n1: "map n_depth (nodes (fst (projr
        (split_edge round_double tight_genome [] (population_at 8) 1 (127 / 128) 0
           no_draws no_draws))))
       = [0, 1, 2, 1 + 1 / 2 ^ 52, 1]"
    unfolding tight_run d1 using tight_facts(4) by simp
  have n2: "map n_depth (nodes (fst (projr
        (split_edge round_double tight_genome [] (population_at 8) 1 (129 / 128) 0
           no_draws no_draws))))
       = [0, 1, 2, 1 + 1 / 2 ^ 52, 1 + 1 / 2 ^ 52]"
    unfolding tight_run d2 using tight_facts(4) by simp
  have ok: "\<not> isl (split_edge round_double tight_genome [] (population_at 8) 1 (127 / 128) 0
      no_draws no_draws)"
    unfolding tight_run by simp
  from tight_facts(1) tight_selected(2) tight_facts(2) sel tight_facts(5,6) d d1 d2 ok n1 ids en n2
  show ?thesis by (intro conjI)
qed

text \<open>
  C6. Let a first \<^verbatim>\<open>split_edge\<close> select an edge of id \<open>k\<close> and return the cache \<open>c1\<close>,
  and let a second \<^verbatim>\<open>split_edge\<close>, on any genome and at any state of the id generator,
  select an edge of the same id \<open>k\<close> with a cache that holds for \<open>k\<close> what \<open>c1\<close> holds.
  Then the new node has the same id and depth in both calls, the two new genes
  have the same ids in both calls, and the second call draws no id and leaves the
  cache as it was. This holds whatever the rounding of the float arithmetic is.
\<close>

theorem split_edge_reuses_innovation:
  assumes "split_edge fl g1 c0 pop0 re1 rn1 rm1 dc1 da1 = Inr (g1', c1, pop1)"
    and "enabled_edges g1 \<noteq> []"
    and "split_edge fl g2 c pop2 re2 rn2 rm2 dc2 da2 = Inr (g2', c2, pop3)"
    and "enabled_edges g2 \<noteq> []"
    and "g_id (genes g2 ! random_choice re2 (enabled_edges g2))
       = g_id (genes g1 ! random_choice re1 (enabled_edges g1))"
    and "map_of c (g_id (genes g1 ! random_choice re1 (enabled_edges g1)))
       = map_of c1 (g_id (genes g1 ! random_choice re1 (enabled_edges g1)))"
  shows "\<exists>n1 a1 b1 n2 a2 b2.
      nodes g1' = nodes g1 @ [n1] \<and> nodes g2' = nodes g2 @ [n2]
    \<and> drop (length (genes g1)) (genes g1') = [a1, b1]
    \<and> drop (length (genes g2)) (genes g2') = [a2, b2]
    \<and> n_id n2 = n_id n1 \<and> n_depth n2 = n_depth n1
    \<and> g_id a2 = g_id a1 \<and> g_id b2 = g_id b1
    \<and> map_of c1 (g_id (genes g1 ! random_choice re1 (enabled_edges g1)))
         = Some (n_id n1, g_id a1, g_id b1, n_depth n1)
    \<and> pop3 = pop2 \<and> c2 = c"
proof -
  let ?e1 = "genes g1 ! random_choice re1 (enabled_edges g1)"
  let ?e2 = "genes g2 ! random_choice re2 (enabled_edges g2)"
  from split_edge_Inr [OF assms(1,2) refl refl]
  obtain ni1 no1 :: Node and id1 id2 id3 dep where first:
    "split_innovation fl c0 pop0 (g_id ?e1) (n_depth ni1) (n_depth no1) rn1
       = ((id1, id2, id3, dep), c1, pop1)"
    "nodes g1' = nodes g1 @ [Node_init id1 dep None None rm1]"
    "genes g1' = (genes g1)[random_choice re1 (enabled_edges g1) := ?e1\<lparr>enabled := False\<rparr>]
          @ [Gene_copy ?e1 id2 (id_in ?e1) id1 dc1, Gene_add_after ?e1 id3 id1 (id_out ?e1) da1]"
    by (elim exE conjE) (rule that)
  from split_edge_Inr [OF assms(3,4) refl refl]
  obtain ni2 no2 :: Node and jd1 jd2 jd3 dep' where second:
    "split_innovation fl c pop2 (g_id ?e2) (n_depth ni2) (n_depth no2) rn2
       = ((jd1, jd2, jd3, dep'), c2, pop3)"
    "nodes g2' = nodes g2 @ [Node_init jd1 dep' None None rm2]"
    "genes g2' = (genes g2)[random_choice re2 (enabled_edges g2) := ?e2\<lparr>enabled := False\<rparr>]
          @ [Gene_copy ?e2 jd2 (id_in ?e2) jd1 dc2, Gene_add_after ?e2 jd3 jd1 (id_out ?e2) da2]"
    by (elim exE conjE) (rule that)
  from split_innovation_cached [OF first(1)]
  have cached: "map_of c1 (g_id ?e1) = Some (id1, id2, id3, dep)" .
  with assms(5,6) have "map_of c (g_id ?e2) = Some (id1, id2, id3, dep)" by simp
  from second(1) [unfolded split_innovation_hit [OF this]]
  have same: "jd1 = id1" "jd2 = id2" "jd3 = id3" "dep' = dep" "c2 = c" "pop3 = pop2"
    by simp_all
  show ?thesis
    apply (rule exI [of _ "Node_init id1 dep None None rm1"])
    apply (rule exI [of _ "Gene_copy ?e1 id2 (id_in ?e1) id1 dc1"])
    apply (rule exI [of _ "Gene_add_after ?e1 id3 id1 (id_out ?e1) da1"])
    apply (rule exI [of _ "Node_init jd1 dep' None None rm2"])
    apply (rule exI [of _ "Gene_copy ?e2 jd2 (id_in ?e2) jd1 dc2"])
    apply (rule exI [of _ "Gene_add_after ?e2 jd3 jd1 (id_out ?e2) da2"])
    using first(2,3) second(2,3) same cached by simp
qed

lemma first_split:
  "split_edge round_double chain [] (population_at 5) 0 (1/2) 0 no_draws no_draws
     = Inr (chain_split, [(3, (5, 6, 7, 1/2))], population_at 8)"
proof -
  have d: "split_depth round_double 0 1 (1/2) = 1/2"
    unfolding split_depth_unit by simp
  show ?thesis unfolding chain_split_def chain_run d by simp
qed

lemma second_split:
  "\<not> isl (split_edge fl chain [(3, (5, 6, 7, 1/2))] (population_at 8) 0 (4/5) 1
           no_draws no_draws)"
  by code_simp

theorem split_edge_reuses_innovation_witness:
  "enabled_edges chain \<noteq> []
   \<and> split_edge round_double chain [] (population_at 5) 0 (1/2) 0 no_draws no_draws
       = Inr (chain_split, [(3, (5, 6, 7, 1/2))], population_at 8)
   \<and> (\<exists>g2' n2 a2 b2.
        split_edge round_double chain [(3, (5, 6, 7, 1/2))] (population_at 8) 0 (4/5) 1
            no_draws no_draws
          = Inr (g2', [(3, (5, 6, 7, 1/2))], population_at 8)
      \<and> nodes g2' = nodes chain @ [n2] \<and> drop (length (genes chain)) (genes g2') = [a2, b2]
      \<and> n_id n2 = 5 \<and> n_depth n2 = 1/2 \<and> g_id a2 = 6 \<and> g_id b2 = 7)"
proof -
  have e: "enabled_edges chain \<noteq> []" by (simp add: chain_edges)
  have k: "g_id (genes chain ! random_choice 0 (enabled_edges chain)) = 3"
    by (simp add: chain_edges random_choice_def chain_simps example_gene_def)
  obtain g2' c2 pop3 where s:
    "split_edge round_double chain [(3, (5, 6, 7, 1/2))] (population_at 8) 0 (4/5) 1
        no_draws no_draws
       = Inr (g2', c2, pop3)"
    using second_split [where fl = round_double]
    by (cases "split_edge round_double chain [(3, (5, 6, 7, 1/2))] (population_at 8) 0 (4/5) 1
                 no_draws no_draws")
      auto
  from split_edge_reuses_innovation [OF first_split e s e refl refl]
  obtain n1 n2 :: Node and a1 b1 a2 b2 :: Gene where r:
    "nodes g2' = nodes chain @ [n2]" "drop (length (genes chain)) (genes g2') = [a2, b2]"
    "n_id n2 = n_id n1" "n_depth n2 = n_depth n1" "g_id a2 = g_id a1" "g_id b2 = g_id b1"
    "map_of [(3, (5, 6, 7, 1/2))] (g_id (genes chain ! random_choice 0 (enabled_edges chain)))
       = Some (n_id n1, g_id a1, g_id b1, n_depth n1)"
    "pop3 = population_at 8" "c2 = [(3, (5, 6, 7, 1/2))]"
    by (elim exE conjE) (rule that)
  from r(7) k have "n_id n1 = 5" "g_id a1 = 6" "g_id b1 = 7" "n_depth n1 = 1/2"
    by simp_all
  with r s e first_split show ?thesis by auto
qed

section \<open>Adding an edge\<close>

lemma shift_mod_neq:
  fixes x k n :: nat
  assumes "x < n" "0 < k" "k < n"
  shows "(x + k) mod n \<noteq> x"
proof (cases "x + k < n")
  case True
  with assms show ?thesis by simp
next
  case False
  then have "n \<le> x + k" by simp
  then have "(x + k) mod n = (x + k - n) mod n" by (rule le_mod_geq)
  also have "\<dots> = x + k - n" using assms by simp
  finally show ?thesis using assms False by simp
qed

lemma random_sample2_range:
  assumes "2 \<le> n" and "random_sample2 a b n = (i, j)"
  shows "i < n \<and> j < n \<and> i \<noteq> j"
proof -
  have n: "0 < n" using assms(1) by simp
  have i: "i = a mod n" and j: "j = (a mod n + (1 + b mod (n - 1))) mod n"
    using assms(2) by (auto simp: random_sample2_def)
  have "b mod (n - 1) < n - 1" using assms(1) by simp
  then have k: "0 < 1 + b mod (n - 1)" "1 + b mod (n - 1) < n" by simp_all
  have x: "a mod n < n" using n by simp
  from shift_mod_neq [OF x k] have "j \<noteq> i" unfolding i j .
  moreover have "i < n" "j < n" unfolding i j using n by simp_all
  ultimately show ?thesis by simp
qed

lemma add_edge_loop_result:
  assumes "2 \<le> length (nodes g)" and "add_edge_loop tries g pop rnd = (g', pop')"
  shows "nodes g' = nodes g \<and> nodes_by_id g' = nodes_by_id g
       \<and> (genes g' = genes g \<or> (\<exists>e. genes g' = genes g @ [e] \<and> added_edge_ok g e))"
  using assms(2)
proof (induction tries arbitrary: rnd)
  case 0
  then show ?case by simp
next
  case (Suc tries)
  obtain i j where ij: "random_sample2 (ed_a (rnd 0)) (ed_b (rnd 0)) (length (nodes g)) = (i, j)"
    by (cases "random_sample2 (ed_a (rnd 0)) (ed_b (rnd 0)) (length (nodes g))")
  from random_sample2_range [OF assms(1) ij]
  have r: "i < length (nodes g)" "j < length (nodes g)" by simp_all
  let ?s1 = "nodes g ! i" and ?s2 = "nodes g ! j"
  obtain n1 n2 where n: "(n1, n2) = (if n_depth ?s1 > n_depth ?s2 then (?s2, ?s1) else (?s1, ?s2))"
    by (cases "n_depth ?s1 > n_depth ?s2") auto
  have mem: "n1 \<in> set (nodes g)" "n2 \<in> set (nodes g)" and le: "n_depth n1 \<le> n_depth n2"
    using n r by (auto split: if_splits)
  show ?case
  proof (cases "n_depth n1 = n_depth n2 \<or> (n_id n1, n_id n2) \<in> set (gene_pairs g)")
    case True
    with Suc.prems ij n [symmetric]
    have "add_edge_loop tries g pop (\<lambda>k. rnd (Suc k)) = (g', pop')"
      by (simp add: Let_def)
    then show ?thesis by (rule Suc.IH)
  next
    case False
    let ?e = "Gene_new
        (weighted_choice [KernelGene_class, PoolGene_class, DenseGene_class] [1, 1, 1]
           (dr_class (ed_gene (rnd 0))))
        (id_generator pop) (n_id n1) (n_id n2) (ed_gene (rnd 0))"
    from False Suc.prems ij n [symmetric]
    have g': "g' = g\<lparr>genes := genes g @ [?e],
        genes_by_id := AList.update (id_generator pop) (length (genes g)) (genes_by_id g)\<rparr>"
      by (simp add: Let_def next_id_def)
    from False le have "n_depth n1 < n_depth n2" by simp
    with mem False have "added_edge_ok g ?e"
      by (auto simp: added_edge_ok_def)
    with g' show ?thesis by simp
  qed
qed

lemma add_edge_result:
  assumes "add_edge g pop rnd = (g', pop')"
  shows "nodes g' = nodes g \<and> nodes_by_id g' = nodes_by_id g
       \<and> (genes g' = genes g \<or> (\<exists>e. genes g' = genes g @ [e] \<and> added_edge_ok g e))"
proof (cases "2 \<le> length (nodes g)")
  case True
  with assms have "add_edge_loop 5 g pop rnd = (g', pop')" by (simp add: add_edge_def)
  from add_edge_loop_result [OF True this] show ?thesis .
next
  case False
  with assms show ?thesis by (simp add: add_edge_def)
qed

lemma depth_of_cong:
  "nodes g' = nodes g \<Longrightarrow> nodes_by_id g' = nodes_by_id g \<Longrightarrow> depth_of g' = depth_of g"
  by (rule ext) (auto simp: depth_of_def node_by_id_def split: option.splits)

lemma forward_gene_cong:
  "nodes g' = nodes g \<Longrightarrow> nodes_by_id g' = nodes_by_id g \<Longrightarrow> forward_gene g' = forward_gene g"
  using depth_of_cong [of g' g] by (simp add: forward_gene_def fun_eq_iff)

lemma depths_consistent_cong:
  "nodes g' = nodes g \<Longrightarrow> nodes_by_id g' = nodes_by_id g \<Longrightarrow>
   depths_consistent g' = depths_consistent g"
  using depth_of_cong [of g' g] by (simp add: depths_consistent_def)

lemma added_edge_forward:
  assumes "depths_consistent g" "added_edge_ok g e"
  shows "forward_gene g e"
proof -
  from assms(2) obtain n1 n2 where n: "n1 \<in> set (nodes g)" "n2 \<in> set (nodes g)"
    "id_in e = n_id n1" "id_out e = n_id n2" "n_depth n1 < n_depth n2"
    by (auto simp: added_edge_ok_def)
  from assms(1) n(1,2) have "depth_of g (n_id n1) = Some (n_depth n1)"
    "depth_of g (n_id n2) = Some (n_depth n2)"
    by (simp_all add: depths_consistent_def list_all_iff)
  with n(3,4,5) show ?thesis by (simp add: forward_gene_def)
qed

lemma add_edge_distinct:
  assumes "add_edge g pop rnd = (g', pop')" "distinct (gene_pairs g)"
  shows "distinct (gene_pairs g')"
proof -
  from add_edge_result [OF assms(1)]
  have "genes g' = genes g \<or> (\<exists>e. genes g' = genes g @ [e] \<and> added_edge_ok g e)"
    by simp
  then show ?thesis
  proof
    assume "genes g' = genes g"
    with assms(2) show ?thesis by (simp add: gene_pairs_def)
  next
    assume "\<exists>e. genes g' = genes g @ [e] \<and> added_edge_ok g e"
    then obtain e where e: "genes g' = genes g @ [e]" "added_edge_ok g e" by blast
    from e(2) have "(id_in e, id_out e) \<notin> set (gene_pairs g)"
      unfolding added_edge_ok_def by blast
    moreover from e(1) have "gene_pairs g' = gene_pairs g @ [(id_in e, id_out e)]"
      by (simp add: gene_pairs_def)
    ultimately show ?thesis using assms(2) by simp
  qed
qed

lemma add_edge_feed_forward:
  assumes "add_edge g pop rnd = (g', pop')" "depths_consistent g" "feed_forward g"
  shows "feed_forward g' \<and> depths_consistent g'"
proof -
  from add_edge_result [OF assms(1)]
  have same: "nodes g' = nodes g" "nodes_by_id g' = nodes_by_id g"
    and gs: "genes g' = genes g \<or> (\<exists>e. genes g' = genes g @ [e] \<and> added_edge_ok g e)"
    by simp_all
  have fg: "forward_gene g' = forward_gene g" using same by (rule forward_gene_cong)
  from gs have "list_all (forward_gene g) (genes g')"
  proof
    assume "genes g' = genes g"
    with assms(3) show ?thesis by (simp add: feed_forward_def)
  next
    assume "\<exists>e. genes g' = genes g @ [e] \<and> added_edge_ok g e"
    then obtain e where e: "genes g' = genes g @ [e]" "added_edge_ok g e" by blast
    from added_edge_forward [OF assms(2) e(2)] e(1) assms(3)
    show ?thesis by (simp add: feed_forward_def)
  qed
  then have "feed_forward g'" unfolding feed_forward_def fg .
  moreover have "depths_consistent g'"
    using assms(2) depths_consistent_cong [OF same] by simp
  ultimately show ?thesis by simp
qed

lemma add_edge_many_distinct:
  "add_edge_many rnds g pop = (g', pop') \<Longrightarrow> distinct (gene_pairs g) \<Longrightarrow>
   distinct (gene_pairs g')"
proof (induction rnds arbitrary: g pop)
  case Nil
  then show ?case by simp
next
  case (Cons rnd rnds)
  obtain g1 pop1 where s: "add_edge g pop rnd = (g1, pop1)" by (cases "add_edge g pop rnd")
  with Cons.prems(1) have "add_edge_many rnds g1 pop1 = (g', pop')" by simp
  from Cons.IH [OF this add_edge_distinct [OF s Cons.prems(2)]] show ?case .
qed

lemma add_edge_many_feed_forward:
  "add_edge_many rnds g pop = (g', pop') \<Longrightarrow> depths_consistent g \<Longrightarrow> feed_forward g \<Longrightarrow>
   feed_forward g'"
proof (induction rnds arbitrary: g pop)
  case Nil
  then show ?case by simp
next
  case (Cons rnd rnds)
  obtain g1 pop1 where s: "add_edge g pop rnd = (g1, pop1)" by (cases "add_edge g pop rnd")
  with Cons.prems(1) have m: "add_edge_many rnds g1 pop1 = (g', pop')" by simp
  from add_edge_feed_forward [OF s Cons.prems(2,3)]
  have "feed_forward g1" "depths_consistent g1" by simp_all
  from Cons.IH [OF m this(2,1)] show ?case .
qed

text \<open>
  C7. A call of \<^verbatim>\<open>add_edge\<close> leaves the nodes as they are and either leaves the genes
  as they are or appends exactly one gene; the gene it appends leads from a node to
  a strictly deeper node and has an (id_in, id_out) pair that no existing gene has.
  Hence a gene list without duplicate pairs stays without duplicate pairs, and a
  feed-forward gene list stays feed-forward, after one call and after any number
  of calls.
\<close>

theorem add_edge_keeps_pairs_distinct_and_forward:
  "(add_edge g pop rnd = (g', pop') \<longrightarrow>
       nodes g' = nodes g
     \<and> (genes g' = genes g \<or> (\<exists>e. genes g' = genes g @ [e] \<and> added_edge_ok g e))
     \<and> (distinct (gene_pairs g) \<longrightarrow> distinct (gene_pairs g'))
     \<and> (depths_consistent g \<and> feed_forward g \<longrightarrow> feed_forward g'))
   \<and> (add_edge_many rnds g pop = (g'', pop'') \<longrightarrow>
       (distinct (gene_pairs g) \<longrightarrow> distinct (gene_pairs g''))
     \<and> (depths_consistent g \<and> feed_forward g \<longrightarrow> feed_forward g''))"
proof (intro conjI impI)
  assume a: "add_edge g pop rnd = (g', pop')"
  from add_edge_result [OF a] show "nodes g' = nodes g" by simp
  from add_edge_result [OF a]
  show "genes g' = genes g \<or> (\<exists>e. genes g' = genes g @ [e] \<and> added_edge_ok g e)" by simp
  show "distinct (gene_pairs g')" if "distinct (gene_pairs g)"
    using add_edge_distinct [OF a that] .
  show "feed_forward g'" if "depths_consistent g \<and> feed_forward g"
    using add_edge_feed_forward [OF a] that by simp
next
  assume m: "add_edge_many rnds g pop = (g'', pop'')"
  show "distinct (gene_pairs g'')" if "distinct (gene_pairs g)"
    using add_edge_many_distinct [OF m that] .
  show "feed_forward g''" if "depths_consistent g \<and> feed_forward g"
    using add_edge_many_feed_forward [OF m] that by simp
qed

lemma chain_plus_run:
  "add_edge chain (population_at 5) example_edge_draws = (chain_plus, population_at 6)"
  unfolding chain_plus_def by code_simp

lemma chain_plus_many:
  "add_edge_many [example_edge_draws, example_edge_draws] chain (population_at 5)
     = (chain_plus, population_at 6)"
  unfolding chain_plus_def by code_simp

lemma chain_plus_pairs: "gene_pairs chain_plus = [(0, 1), (1, 2), (0, 2)]"
  unfolding chain_plus_def by code_simp

lemma chain_pre: "distinct (gene_pairs chain)" "depths_consistent chain"
  by code_simp+

theorem add_edge_keeps_pairs_distinct_and_forward_witness:
  "distinct (gene_pairs chain) \<and> depths_consistent chain \<and> feed_forward chain
   \<and> add_edge chain (population_at 5) example_edge_draws = (chain_plus, population_at 6)
   \<and> add_edge_many [example_edge_draws, example_edge_draws] chain (population_at 5)
       = (chain_plus, population_at 6)
   \<and> gene_pairs chain_plus = [(0, 1), (1, 2), (0, 2)]
   \<and> distinct (gene_pairs chain_plus) \<and> feed_forward chain_plus"
proof -
  from add_edge_keeps_pairs_distinct_and_forward
    [of chain "population_at 5" example_edge_draws chain_plus "population_at 6"
      "[example_edge_draws, example_edge_draws]" chain_plus "population_at 6"]
    chain_plus_run chain_plus_many chain_pre chain_ff
  have "distinct (gene_pairs chain_plus)" "feed_forward chain_plus" by blast+
  with chain_plus_run chain_plus_many chain_pre chain_ff chain_plus_pairs show ?thesis
    by blast
qed

section \<open>Dissimilarity and loading\<close>

lemma dissimilarity_E_zero: "dissimilarity_E g1 g2 = 0"
proof -
  let ?U = "gene_ids g1 \<union> gene_ids g2"
  let ?S = "sym_diff (gene_ids g1) (gene_ids g2)"
  have fin: "finite ?U" by (simp add: gene_ids_def)
  have "k < excess_start g1 g2" if "k \<in> ?S" for k
  proof -
    from that have "k \<in> ?U" by (auto simp: sym_diff_def)
    with fin have "k \<le> Max ?U" by (rule Max_ge)
    then show ?thesis by (simp add: excess_start_def)
  qed
  then have "Set.filter (\<lambda>k. k < excess_start g1 g2) ?S = ?S" by auto
  then show ?thesis by (simp add: dissimilarity_E_def dissimilarity_D_def)
qed

text \<open>
  C8. For two genomes that each have at least one gene and that have a node id in
  common, the excess term \<open>E\<close> is 0, because \<^verbatim>\<open>excess_start\<close> is one past the largest
  gene id of either genome, so every id of the symmetric difference counts as
  disjoint; the normalizer \<open>N\<close> is 1; and the distance returned is
  \<open>c0*S + c1*D + c3*T + c4*K + c5*X\<close>.
\<close>

theorem dissimilarity_excess_zero:
  assumes "genes_by_id g1 \<noteq> []" and "genes_by_id g2 \<noteq> []"
    and "node_ids g1 \<inter> node_ids g2 \<noteq> {}"
  shows "dissimilarity_E g1 g2 = 0 \<and> dissimilarity_N = 1
    \<and> dissimilarity_D g1 g2 = int (card (sym_diff (gene_ids g1) (gene_ids g2)))
    \<and> dissimilarity m g1 g2 (c0, c1, c2, c3, c4, c5)
        = Inr (c0 * dissimilarity_S m g1 g2 + c1 * real_of_int (dissimilarity_D g1 g2)
               + c3 * dissimilarity_T m g1 g2 + c4 * dissimilarity_K m g1 g2
               + c5 * dissimilarity_X m g1 g2)"
proof -
  from assms(1) have "gene_ids g1 \<noteq> {}" by (simp add: gene_ids_def)
  then have ne: "gene_ids g1 \<union> gene_ids g2 \<noteq> {}" by simp
  have E: "dissimilarity_E g1 g2 = 0" by (rule dissimilarity_E_zero)
  then have D: "dissimilarity_D g1 g2 = int (card (sym_diff (gene_ids g1) (gene_ids g2)))"
    by (simp add: dissimilarity_E_def)
  from ne assms(3) E D show ?thesis
    by (simp add: dissimilarity_def dissimilarity_N_def)
qed

lemma chain_dis_pre:
  "genes_by_id chain \<noteq> []" "genes_by_id chain_plus \<noteq> []"
  "node_ids chain \<inter> node_ids chain_plus \<noteq> {}"
  by code_simp+

lemma chain_sym_diff: "card (sym_diff (gene_ids chain) (gene_ids chain_plus)) = 1"
  by code_simp

theorem dissimilarity_excess_zero_witness:
  "genes_by_id chain \<noteq> [] \<and> genes_by_id chain_plus \<noteq> []
   \<and> node_ids chain \<inter> node_ids chain_plus \<noteq> {}
   \<and> dissimilarity_E chain chain_plus = 0
   \<and> dissimilarity_D chain chain_plus = 1
   \<and> dissimilarity example_metrics chain chain_plus (5, 5, 5, 1, 5, 1)
       = Inr (5 * dissimilarity_S example_metrics chain chain_plus
              + 5 * real_of_int (dissimilarity_D chain chain_plus)
              + 1 * dissimilarity_T example_metrics chain chain_plus
              + 5 * dissimilarity_K example_metrics chain chain_plus
              + 1 * dissimilarity_X example_metrics chain chain_plus)"
  using dissimilarity_excess_zero [OF chain_dis_pre, of example_metrics 5 5 5 1 5 1]
    chain_dis_pre chain_sym_diff
  by simp

text \<open>
  C9. \<^verbatim>\<open>load\<close> on five entries restores optimizer, nodes, genes, acc and
  net_parameters and leaves loss, trained, no_change and reward as they were, which
  on a freshly constructed genome is +infinity, 0, 0, 0; on nine entries it restores
  all nine fields; on eight entries it restores all but net_parameters, which it
  sets to \<^verbatim>\<open>None\<close>; on any other number of entries it fails with \<^verbatim>\<open>ValueError\<close>.
\<close>

theorem load_dispatches_on_arity:
  "load ld g [Saved_optimizer so, Saved_nodes sn, Saved_genes sg, Saved_acc a, Saved_parameters p] True
     = Inr (g\<lparr>optimizer := load_optimizer ld so,
              nodes := map (load_node ld) sn, genes := map (load_gene ld) sg,
              genes_by_id := fst (dicts_by_id (map (load_gene ld) sg) (map (load_node ld) sn)),
              nodes_by_id := snd (dicts_by_id (map (load_gene ld) sg) (map (load_node ld) sn)),
              acc := a, net_parameters := p\<rparr>)
   \<and> load ld g [Saved_optimizer so, Saved_nodes sn, Saved_genes sg, Saved_acc a, Saved_loss l,
        Saved_int t, Saved_int n, Saved_int r, Saved_parameters p] True
     = Inr (g\<lparr>optimizer := load_optimizer ld so,
              nodes := map (load_node ld) sn, genes := map (load_gene ld) sg,
              genes_by_id := fst (dicts_by_id (map (load_gene ld) sg) (map (load_node ld) sn)),
              nodes_by_id := snd (dicts_by_id (map (load_gene ld) sg) (map (load_node ld) sn)),
              acc := a, loss := l, trained := t, no_change := n, reward := r,
              net_parameters := p\<rparr>)
   \<and> load ld g [Saved_optimizer so, Saved_nodes sn, Saved_genes sg, Saved_acc a, Saved_loss l,
        Saved_int t, Saved_int n, Saved_int r] lp
     = Inr (g\<lparr>optimizer := load_optimizer ld so,
              nodes := map (load_node ld) sn, genes := map (load_gene ld) sg,
              genes_by_id := fst (dicts_by_id (map (load_gene ld) sg) (map (load_node ld) sn)),
              nodes_by_id := snd (dicts_by_id (map (load_gene ld) sg) (map (load_node ld) sn)),
              acc := a, loss := l, trained := t, no_change := n, reward := r,
              net_parameters := None\<rparr>)
   \<and> (length save \<noteq> 5 \<and> length save \<noteq> 8 \<and> length save \<noteq> 9 \<longrightarrow>
        load ld g save lp = Inl ValueError)
   \<and> loss (Genome_default fresh_optimizer fresh :: ('o, 'p) Genome) = Infinity
   \<and> trained (Genome_default fresh_optimizer fresh :: ('o, 'p) Genome) = 0
   \<and> no_change (Genome_default fresh_optimizer fresh :: ('o, 'p) Genome) = 0
   \<and> reward (Genome_default fresh_optimizer fresh :: ('o, 'p) Genome) = 0"
proof (intro conjI impI)
  show "load ld g [Saved_optimizer so, Saved_nodes sn, Saved_genes sg, Saved_acc a, Saved_parameters p] True
     = Inr (g\<lparr>optimizer := load_optimizer ld so,
              nodes := map (load_node ld) sn, genes := map (load_gene ld) sg,
              genes_by_id := fst (dicts_by_id (map (load_gene ld) sg) (map (load_node ld) sn)),
              nodes_by_id := snd (dicts_by_id (map (load_gene ld) sg) (map (load_node ld) sn)),
              acc := a, net_parameters := p\<rparr>)"
    by (simp add: load_def load_fields_def and_then_def Let_def split_beta)
  show "load ld g [Saved_optimizer so, Saved_nodes sn, Saved_genes sg, Saved_acc a, Saved_loss l,
        Saved_int t, Saved_int n, Saved_int r, Saved_parameters p] True
     = Inr (g\<lparr>optimizer := load_optimizer ld so,
              nodes := map (load_node ld) sn, genes := map (load_gene ld) sg,
              genes_by_id := fst (dicts_by_id (map (load_gene ld) sg) (map (load_node ld) sn)),
              nodes_by_id := snd (dicts_by_id (map (load_gene ld) sg) (map (load_node ld) sn)),
              acc := a, loss := l, trained := t, no_change := n, reward := r,
              net_parameters := p\<rparr>)"
    by (simp add: load_def load_fields_def and_then_def Let_def split_beta)
  show "load ld g [Saved_optimizer so, Saved_nodes sn, Saved_genes sg, Saved_acc a, Saved_loss l,
        Saved_int t, Saved_int n, Saved_int r] lp
     = Inr (g\<lparr>optimizer := load_optimizer ld so,
              nodes := map (load_node ld) sn, genes := map (load_gene ld) sg,
              genes_by_id := fst (dicts_by_id (map (load_gene ld) sg) (map (load_node ld) sn)),
              nodes_by_id := snd (dicts_by_id (map (load_gene ld) sg) (map (load_node ld) sn)),
              acc := a, loss := l, trained := t, no_change := n, reward := r,
              net_parameters := None\<rparr>)"
    by (simp add: load_def load_fields_def and_then_def Let_def split_beta)
  show "load ld g save lp = Inl ValueError"
    if "length save \<noteq> 5 \<and> length save \<noteq> 8 \<and> length save \<noteq> 9"
    using that by (simp add: load_def load_fields_def and_then_def)
qed (simp_all add: Genome_default_def Genome_init_def Let_def split_beta)

theorem load_dispatches_on_arity_witness:
  "length short_save \<noteq> 5 \<and> length short_save \<noteq> 8 \<and> length short_save \<noteq> 9
   \<and> load example_loaders chain short_save True = Inl ValueError"
proof -
  have len: "length short_save \<noteq> 5 \<and> length short_save \<noteq> 8 \<and> length short_save \<noteq> 9"
    by (simp add: short_save_def)
  from load_dispatches_on_arity [where save = short_save and ld = example_loaders
      and g = chain and lp = True and so = "()" and sn = "[]" and sg = "[]" and a = None
      and p = None and l = Infinity and t = 0 and n = 0 and r = 0
      and fresh_optimizer = "()" and fresh = "([], [])"]
  have "length short_save \<noteq> 5 \<and> length short_save \<noteq> 8 \<and> length short_save \<noteq> 9 \<longrightarrow>
        load example_loaders chain short_save True = Inl ValueError"
    by (elim conjE)
  with len show ?thesis by blast
qed

end
